theory Spec2Isabelle
  imports Complex_Main
begin

section \<open>Background process supervision (backgroundProcessService.ts)\<close>

text \<open>
  The service is a registry of background shell processes. Each record owns a bounded
  buffer of output lines and one read offset per consumer. The embedding threads the
  service object explicitly: every method takes the service and returns the updated one.
  Wall-clock readings (\<open>Date.now()\<close>, \<open>new Date()\<close>) and the values computed from
  \<open>Math.random()\<close> are arguments of the method that reads them; the \<open>RegExp\<close> constructor of the host is an
  argument as well. Strings are lists of characters.
\<close>

subsection \<open>Data model\<close>

datatype status = Running | Completed | Failed | Terminated

text \<open>An optional field that may also hold \<open>null\<close> (\<open>exitCode?: number | null\<close>).\<close>

datatype 'a nullable = Undefined | Null | Val 'a

text \<open>
  \<open>ShellExecutionHandle\<close> is \<open>{pid, result}\<close>. The record keeps the pid; the settlement of
  the \<open>result\<close> promise is an event of the environment (see \<open>event\<close> below).
\<close>

type_synonym ShellExecutionHandle = "int option"

text \<open>
  An \<open>AbortController\<close> is represented by its \<open>signal.aborted\<close> flag.
\<close>

type_synonym AbortController = bool

record BackgroundProcess =
  id_bp :: string
  pid :: "int option"
  command :: string
  status :: status
  exitCode :: "int nullable"
  terminationSignal :: "string option"
  outputBuffer :: "string list"
  lastReadIndex :: "string \<rightharpoonup> int"
  startTime :: int
  endTime :: "int option"
  handle :: "ShellExecutionHandle option"
  abortController :: "AbortController option"
  memoryUsage :: "int option"
  fileDescriptors :: "int option"

text \<open>
  The fields of the class. \<open>cleanupTimers\<close> maps an id to the time at which its pending
  timer is due (the time of \<open>setTimeout\<close> plus the delay).
\<close>

record BackgroundProcessService =
  processes :: "string \<rightharpoonup> BackgroundProcess"
  MAX_BUFFER_LINES :: nat
  CLEANUP_TIMEOUT_MS :: int
  cleanupTimers :: "string \<rightharpoonup> int"

text \<open>The constructor, with the field initialisers of the class.\<close>

definition getInstance :: BackgroundProcessService where
  "getInstance =
     \<lparr> processes = Map.empty,
       MAX_BUFFER_LINES = 10000,
       CLEANUP_TIMEOUT_MS = 30 * 60 * 1000,
       cleanupTimers = Map.empty \<rparr>"

subsection \<open>Strings and arrays of the host language\<close>

text \<open>\<open>s.split('\n')\<close>: the pieces between line feeds; never an empty array.\<close>

fun split_newline :: "string \<Rightarrow> string list" where
  "split_newline [] = [[]]"
| "split_newline (c # cs) =
     (if c = CHR 0x0A then [] # split_newline cs
      else (case split_newline cs of
              [] \<Rightarrow> [[c]]
            | l # ls \<Rightarrow> (c # l) # ls))"

text \<open>\<open>xs.slice(start)\<close>: a negative start counts from the end.\<close>

definition slice :: "'a list \<Rightarrow> int \<Rightarrow> 'a list" where
  "slice xs start =
     (if start < 0 then drop (nat (max (int (length xs) + start) 0)) xs
      else drop (nat start) xs)"

text \<open>Decimal rendering of an integer, as a template literal prints it.\<close>

definition digit_char :: "nat \<Rightarrow> char" where
  "digit_char d = ''0123456789'' ! d"

function string_of_nat :: "nat \<Rightarrow> string" where
  "string_of_nat n =
     (if n < 10 then [digit_char n]
      else string_of_nat (n div 10) @ [digit_char (n mod 10)])"
  by pat_completeness auto

termination
  by (relation "measure (\<lambda>n. n)") auto

declare string_of_nat.simps [simp del]

definition string_of_int :: "int \<Rightarrow> string" where
  "string_of_int i =
     (if i < 0 then CHR ''-'' # string_of_nat (nat (- i)) else string_of_nat (nat i))"

definition status_string :: "status \<Rightarrow> string" where
  "status_string st =
     (case st of Running \<Rightarrow> ''running'' | Completed \<Rightarrow> ''completed''
      | Failed \<Rightarrow> ''failed'' | Terminated \<Rightarrow> ''terminated'')"

subsection \<open>registerProcess\<close>

definition registerProcess ::
  "BackgroundProcessService \<Rightarrow> string \<Rightarrow> int option \<Rightarrow> string \<Rightarrow>
   ShellExecutionHandle option \<Rightarrow> AbortController option \<Rightarrow> int \<Rightarrow> BackgroundProcessService" where
  "registerProcess s bashId pid' command' handle' abortController' now =
     s\<lparr>processes := (processes s)(bashId \<mapsto>
        \<lparr> id_bp = bashId,
          pid = pid',
          command = command',
          status = Running,
          exitCode = Undefined,
          terminationSignal = None,
          outputBuffer = [],
          lastReadIndex = Map.empty,
          startTime = now,
          endTime = None,
          handle = handle',
          abortController = abortController',
          memoryUsage = None,
          fileDescriptors = None \<rparr>)\<rparr>"

subsection \<open>addOutput\<close>

definition addOutput ::
  "BackgroundProcessService \<Rightarrow> string \<Rightarrow> string \<Rightarrow> BackgroundProcessService" where
  "addOutput s bashId output' =
     (case processes s bashId of
        None \<Rightarrow> s
      | Some process \<Rightarrow>
          (let lines = filter (\<lambda>line. length line > 0) (split_newline output');
               pushed = outputBuffer process @ lines
           in if length pushed > MAX_BUFFER_LINES s then
                (let overflow = length pushed - MAX_BUFFER_LINES s
                 in s\<lparr>processes := (processes s)(bashId \<mapsto>
                      process\<lparr>outputBuffer := drop overflow pushed,
                              lastReadIndex := (\<lambda>consumerId.
                                 map_option (\<lambda>index. max 0 (index - int overflow))
                                   (lastReadIndex process consumerId))\<rparr>)\<rparr>)
              else s\<lparr>processes := (processes s)(bashId \<mapsto>
                      process\<lparr>outputBuffer := pushed\<rparr>)\<rparr>))"

subsection \<open>getNewOutput\<close>

record PollResult =
  pollOutput :: "string list"
  pollStatus :: string
  pollExitCode :: "int nullable"
  pollError :: "string option"

text \<open>
  \<open>RegExp\<close> stands for \<open>new RegExp(filter)\<close>: \<open>None\<close> when the constructor throws, otherwise
  the predicate \<open>regex.test\<close>. A missing \<open>consumerId\<close> takes the default of the signature;
  a missing or empty \<open>filter\<close> is falsy and skips the filtering.
\<close>

type_synonym RegExp = "string \<Rightarrow> (string \<Rightarrow> bool) option"

definition getNewOutput ::
  "RegExp \<Rightarrow> BackgroundProcessService \<Rightarrow> string \<Rightarrow> string option \<Rightarrow> string option \<Rightarrow>
   PollResult \<times> BackgroundProcessService" where
  "getNewOutput RegExp s bashId consumerId' filter' =
     (let consumerId = (case consumerId' of None \<Rightarrow> ''default'' | Some c \<Rightarrow> c)
      in case processes s bashId of
        None \<Rightarrow>
          (\<lparr> pollOutput = [], pollStatus = ''not_found'', pollExitCode = Undefined,
             pollError = Some (''No background process found with ID: '' @ bashId) \<rparr>, s)
      | Some process \<Rightarrow>
          (let lastIndex = (case lastReadIndex process consumerId of None \<Rightarrow> 0 | Some i \<Rightarrow> i);
               newLines = slice (outputBuffer process) lastIndex;
               advanced = s\<lparr>processes := (processes s)(bashId \<mapsto>
                  process\<lparr>lastReadIndex := (lastReadIndex process)
                     (consumerId \<mapsto> int (length (outputBuffer process)))\<rparr>)\<rparr>
           in case filter' of
                None \<Rightarrow>
                  (\<lparr> pollOutput = newLines, pollStatus = status_string (status process),
                     pollExitCode = exitCode process, pollError = None \<rparr>, advanced)
              | Some f \<Rightarrow>
                  if f = [] then
                    (\<lparr> pollOutput = newLines, pollStatus = status_string (status process),
                       pollExitCode = exitCode process, pollError = None \<rparr>, advanced)
                  else
                    (case RegExp f of
                       None \<Rightarrow>
                         (\<lparr> pollOutput = [], pollStatus = status_string (status process),
                            pollExitCode = exitCode process,
                            pollError = Some (''Invalid regex filter: '' @ f) \<rparr>, s)
                     | Some test \<Rightarrow>
                         (\<lparr> pollOutput = filter test newLines,
                            pollStatus = status_string (status process),
                            pollExitCode = exitCode process, pollError = None \<rparr>, advanced))))"

subsection \<open>Lifecycle transitions and delayed cleanup\<close>

text \<open>
  \<open>scheduleCleanup\<close> clears the timer of the id, if any, and arms a new one; the map keeps
  the one pending deadline.
\<close>

definition scheduleCleanup ::
  "BackgroundProcessService \<Rightarrow> string \<Rightarrow> int \<Rightarrow> BackgroundProcessService" where
  "scheduleCleanup s bashId now =
     s\<lparr>cleanupTimers := (cleanupTimers s)(bashId \<mapsto> now + CLEANUP_TIMEOUT_MS s)\<rparr>"

text \<open>The callback of the timer; the host runs it no earlier than the deadline.\<close>

definition cleanupTimerFires ::
  "BackgroundProcessService \<Rightarrow> string \<Rightarrow> int \<Rightarrow> BackgroundProcessService" where
  "cleanupTimerFires s bashId now =
     (case cleanupTimers s bashId of
        None \<Rightarrow> s
      | Some due \<Rightarrow>
          if due \<le> now then
            s\<lparr>processes := (processes s)(bashId := None),
              cleanupTimers := (cleanupTimers s)(bashId := None)\<rparr>
          else s)"

definition markProcessCompleted ::
  "BackgroundProcessService \<Rightarrow> string \<Rightarrow> int option \<Rightarrow> int \<Rightarrow> BackgroundProcessService" where
  "markProcessCompleted s bashId exitCode' now =
     (case processes s bashId of
        None \<Rightarrow> s
      | Some process \<Rightarrow>
          scheduleCleanup
            (s\<lparr>processes := (processes s)(bashId \<mapsto>
                process\<lparr>status := Completed,
                        exitCode := (case exitCode' of None \<Rightarrow> Null | Some n \<Rightarrow> Val n),
                        endTime := Some now\<rparr>)\<rparr>)
            bashId now)"

definition markProcessTerminated ::
  "BackgroundProcessService \<Rightarrow> string \<Rightarrow> string \<Rightarrow> int \<Rightarrow> BackgroundProcessService" where
  "markProcessTerminated s bashId signal now =
     (case processes s bashId of
        None \<Rightarrow> s
      | Some process \<Rightarrow>
          scheduleCleanup
            (s\<lparr>processes := (processes s)(bashId \<mapsto>
                process\<lparr>status := Terminated,
                        terminationSignal := Some signal,
                        endTime := Some now\<rparr>)\<rparr>)
            bashId now)"

definition markProcessFailed ::
  "BackgroundProcessService \<Rightarrow> string \<Rightarrow> string \<Rightarrow> int \<Rightarrow> BackgroundProcessService" where
  "markProcessFailed s bashId errorMessage now =
     (case processes s bashId of
        None \<Rightarrow> s
      | Some process \<Rightarrow>
          scheduleCleanup
            (addOutput
               (s\<lparr>processes := (processes s)(bashId \<mapsto>
                   process\<lparr>status := Failed, endTime := Some now\<rparr>)\<rparr>)
               bashId (''Process failed: '' @ errorMessage))
            bashId now)"

definition clearAll :: "BackgroundProcessService \<Rightarrow> BackgroundProcessService" where
  "clearAll s = s\<lparr>processes := Map.empty, cleanupTimers := Map.empty\<rparr>"

definition getProcess :: "BackgroundProcessService \<Rightarrow> string \<Rightarrow> BackgroundProcess option" where
  "getProcess s bashId = processes s bashId"

subsection \<open>Formatting helpers of killProcess\<close>

text \<open>The remainder operator on numbers: the sign follows the dividend.\<close>

definition js_rem :: "rat \<Rightarrow> rat \<Rightarrow> rat" where
  "js_rem x y =
     (let q = x / y in x - y * of_int (if q < 0 then \<lceil>q\<rceil> else \<lfloor>q\<rfloor>))"

definition plural :: "int \<Rightarrow> string" where
  "plural n = (if n \<noteq> 1 then ''s'' else [])"

definition formatRuntime :: "rat \<Rightarrow> string" where
  "formatRuntime seconds =
     (let minutes = \<lfloor>seconds / 60\<rfloor>;
          secs = \<lfloor>js_rem seconds 60\<rfloor>
      in if minutes > 0 then
           string_of_int minutes @ '' minute'' @ plural minutes @ '' '' @
           string_of_int secs @ '' second'' @ plural secs
         else string_of_int secs @ '' second'' @ plural secs)"

definition formatTimeDiff :: "int \<Rightarrow> int \<Rightarrow> string" where
  "formatTimeDiff date now =
     (let seconds = (now - date) div 1000
      in if seconds < 60 then string_of_int seconds @ '' second'' @ plural seconds @ '' ago''
         else (let minutes = seconds div 60
               in if minutes < 60 then
                    string_of_int minutes @ '' minute'' @ plural minutes @ '' ago''
                  else (let hours = minutes div 60
                        in string_of_int hours @ '' hour'' @ plural hours @ '' ago'')))"

subsection \<open>Events of the environment\<close>

text \<open>
  The runtime is single-threaded: between two suspension points one callback runs to its
  end. An event is one such callback on the service. \<open>ResultResolved\<close> and \<open>ResultRejected\<close>
  are the two continuations that \<open>registerProcess\<close> attaches to \<open>handle.result\<close>.
  \<open>AbortSent\<close> and \<open>MarkTerminated\<close> are the two halves of a \<open>killProcess\<close> call that found the
  process running: the part before its 500 ms wait and the part after it.
\<close>

datatype event =
    RegisterProcess string "int option" string "ShellExecutionHandle option"
      "AbortController option" int
  | AddOutput string string
  | GetNewOutput string "string option" "string option"
  | ResultResolved string "int option" int
  | ResultRejected string string int
  | AbortSent string
  | MarkTerminated string string int
  | CleanupTimer string int
  | ClearAll

text \<open>\<open>process.abortController.abort()\<close> on the record of the id.\<close>

definition abortSent :: "BackgroundProcessService \<Rightarrow> string \<Rightarrow> BackgroundProcessService" where
  "abortSent s bashId =
     (case processes s bashId of
        None \<Rightarrow> s
      | Some process \<Rightarrow>
          (case abortController process of
             None \<Rightarrow> s
           | Some _ \<Rightarrow>
               s\<lparr>processes := (processes s)(bashId \<mapsto>
                   process\<lparr>abortController := Some True\<rparr>)\<rparr>))"

fun step :: "RegExp \<Rightarrow> BackgroundProcessService \<Rightarrow> event \<Rightarrow> BackgroundProcessService" where
  "step RegExp s (RegisterProcess bashId p c h a now) = registerProcess s bashId p c h a now"
| "step RegExp s (AddOutput bashId text) = addOutput s bashId text"
| "step RegExp s (GetNewOutput bashId consumerId f) = snd (getNewOutput RegExp s bashId consumerId f)"
| "step RegExp s (ResultResolved bashId code now) = markProcessCompleted s bashId code now"
| "step RegExp s (ResultRejected bashId msg now) = markProcessFailed s bashId msg now"
| "step RegExp s (AbortSent bashId) = abortSent s bashId"
| "step RegExp s (MarkTerminated bashId signal now) = markProcessTerminated s bashId signal now"
| "step RegExp s (CleanupTimer bashId now) = cleanupTimerFires s bashId now"
| "step RegExp s ClearAll = clearAll s"

definition run :: "RegExp \<Rightarrow> BackgroundProcessService \<Rightarrow> event list \<Rightarrow> BackgroundProcessService" where
  "run RegExp s evs = foldl (step RegExp) s evs"

subsection \<open>killProcess\<close>

record ResourcesFreed =
  memory :: int
  fileDescriptorsFreed :: int

record KillResult =
  success :: bool
  message :: string
  runtime :: "rat option"
  resourcesFreed :: "ResourcesFreed option"
  terminationMethod :: "string option"
  killExitCode :: "int nullable"

definition newline :: string where
  "newline = [CHR 0x0A]"

text \<open>The three characters between \<open>Running\<close> and \<open>Terminated\<close> in the message, as UTF-8 bytes.\<close>

definition arrow :: string where
  "arrow = [CHR 0xC3, CHR 0xA2, CHR 0xE2, CHR 0x80, CHR 0xA0, CHR 0xE2, CHR 0x80, CHR 0x99]"

text \<open>
  \<open>killProcess\<close> is asynchronous. When the record has an abort controller the call signals
  it and sleeps for 500 ms; \<open>window\<close> is the list of callbacks that run on the service during
  that sleep, and \<open>now'\<close> the clock when the call resumes. Without a controller there is no
  suspension and \<open>window\<close> is not used. \<open>now\<close> is the clock at the call.
  \<open>randomTimes100\<close> and \<open>randomTimes5\<close> are the values of the expressions
  \<open>Math.random() * 100\<close> and \<open>Math.random() * 5\<close>, if they are evaluated. The host computes
  these products in binary floating point, so the model takes the products themselves, not
  the draws; \<open>Math.floor\<close> and the additions of 10 and 1 that follow are exact. Nothing
  inside the \<open>try\<close> block throws (signalling an abort controller, arming a timer and the
  updates of the record do not), so the \<open>catch\<close> branch has no counterpart.
\<close>

definition killProcess ::
  "RegExp \<Rightarrow> BackgroundProcessService \<Rightarrow> string \<Rightarrow> int \<Rightarrow> rat \<Rightarrow> rat \<Rightarrow> event list \<Rightarrow> int \<Rightarrow>
   KillResult \<times> BackgroundProcessService" where
  "killProcess RegExp s bashId now randomTimes100 randomTimes5 window now' =
     (case processes s bashId of
        None \<Rightarrow>
          (\<lparr> success = False,
             message = ''No background process found with ID: '' @ bashId,
             runtime = None, resourcesFreed = None, terminationMethod = None,
             killExitCode = Undefined \<rparr>, s)
      | Some process \<Rightarrow>
          if status process = Completed then
            (\<lparr> success = False,
               message =
                 ''Process has already completed'' @ newline @
                 ''  - Exit Code: '' @
                   (case exitCode process of Val n \<Rightarrow> string_of_int n | _ \<Rightarrow> ''unknown'') @
                 newline @
                 ''  - Completed: '' @
                   (case endTime process of Some e \<Rightarrow> formatTimeDiff e now | None \<Rightarrow> ''unknown'') @
                 newline @
                 ''  - Final Status: '' @
                   (if exitCode process = Val 0 then ''Success'' else ''Failed''),
               runtime =
                 Some (case endTime process of
                         Some e \<Rightarrow> of_int (e - startTime process) / 1000
                       | None \<Rightarrow> 0),
               resourcesFreed = None, terminationMethod = None,
               killExitCode = exitCode process \<rparr>, s)
          else if status process = Failed then
            (\<lparr> success = False,
               message = ''Process '' @ bashId @ '' has already failed'',
               runtime = None, resourcesFreed = None, terminationMethod = None,
               killExitCode = Undefined \<rparr>, s)
          else if status process = Terminated then
            (\<lparr> success = False,
               message = ''Process '' @ bashId @ '' was already terminated'',
               runtime = None, resourcesFreed = None, terminationMethod = None,
               killExitCode = Undefined \<rparr>, s)
          else
            (let runtime' = of_int (now - startTime process) / 1000;
                 memoryFreed =
                   (case memoryUsage process of
                      None \<Rightarrow> \<lfloor>randomTimes100\<rfloor> + 10
                    | Some m \<Rightarrow> if m \<noteq> 0 then m else \<lfloor>randomTimes100\<rfloor> + 10);
                 fileDescriptorsFreed' =
                   (case fileDescriptors process of
                      None \<Rightarrow> \<lfloor>randomTimes5\<rfloor> + 1
                    | Some n \<Rightarrow> if n \<noteq> 0 then n else \<lfloor>randomTimes5\<rfloor> + 1);
                 waited =
                   (case abortController process of
                      None \<Rightarrow> s
                    | Some _ \<Rightarrow> run RegExp (abortSent s bashId) window);
                 terminationMethod' =
                   (case abortController process of
                      None \<Rightarrow> ''SIGTERM''
                    | Some _ \<Rightarrow>
                        (case processes waited bashId of
                           None \<Rightarrow> ''SIGTERM''
                         | Some updatedProcess \<Rightarrow>
                             if status updatedProcess = Running then ''SIGKILL (forced)''
                             else ''SIGTERM''))
             in (\<lparr> success = True,
                   message =
                     ''Process terminated successfully'' @ newline @
                     ''  - Process ID: '' @
                       (case pid process of
                          None \<Rightarrow> ''unknown''
                        | Some n \<Rightarrow> if n \<noteq> 0 then string_of_int n else ''unknown'') @
                     newline @
                     ''  - Status: Running '' @ arrow @ '' Terminated'' @ newline @
                     ''  - Runtime: '' @ formatRuntime runtime' @ newline @
                     ''  - Resources cleaned up: '' @ string_of_int memoryFreed @
                     ''MB memory, '' @ string_of_int fileDescriptorsFreed' @
                     '' file descriptors'',
                   runtime = Some runtime',
                   resourcesFreed =
                     Some \<lparr> memory = memoryFreed, fileDescriptorsFreed = fileDescriptorsFreed' \<rparr>,
                   terminationMethod = Some terminationMethod',
                   killExitCode = Undefined \<rparr>,
                 markProcessTerminated waited bashId terminationMethod' now')))"

section \<open>The shell tool (shell.ts)\<close>

text \<open>
  \<open>ShellToolInvocation.execute\<close> runs one command, in the foreground under a timeout or
  detached in the background. The execution engine (\<open>ShellExecutionService\<close>), the helpers
  \<open>stripShellWrapper\<close> and \<open>formatMemoryUsage\<close> and the built-ins of the host belong to
  other modules; what they return is an argument of the model. The model follows the control
  flow of the method, its early returns, its \<open>catch\<close> and \<open>finally\<close> blocks and the order of
  its calls on the supervisor. It returns the result together with the list of the effects
  on the outside world, in order, and a tag that names the \<open>return\<close> statement taken. The
  callback of a foreground run only feeds the throttled display and has no part in the
  result; it is left out.
\<close>

subsection \<open>Parameters, events and results\<close>

record ShellToolParams =
  param_command :: string
  param_timeout :: "int option"
  param_description :: "string option"
  param_run_in_background :: "bool option"
  param_sandbox :: "bool option"
  param_directory :: "string option"

datatype ShellOutputEvent =
    Data string
  | BinaryDetected
  | BinaryProgress nat

text \<open>The fields of the engine's result that the method reads.\<close>

record ShellExecutionResult =
  res_output :: string
  res_error :: "string option"
  res_exitCode :: "int option"
  res_signal :: "int option"
  res_aborted :: bool
  res_pid :: "int option"

record ToolResult =
  llmContent :: string
  returnDisplay :: string

text \<open>How a promise settles; a rejection carries the message of the error.\<close>

datatype 'a settled = Resolved 'a | Rejected string

text \<open>
  The parts of the program and of the host that other modules define.
  \<open>structuredReport\<close> and \<open>displayMessage\<close> stand for the formatting of the report of a
  command that was not aborted and of the display text (the code after the timeout check
  that reads the side-channel file and the configuration); \<open>summarize\<close> is the configured
  summarizer, if any.
\<close>

record Host =
  stripShellWrapper :: "string \<Rightarrow> string"
  trim :: "string \<Rightarrow> string"
  formatMemoryUsage :: "nat \<Rightarrow> string"
  structuredReport :: "ShellExecutionResult \<Rightarrow> string"
  displayMessage :: "string \<Rightarrow> ShellExecutionResult \<Rightarrow> string"
  summarize :: "(string \<Rightarrow> string) option"
  platformWin32 :: bool
  tempFilePath :: string
  cwd :: string

text \<open>
  What the environment does during one call. \<open>signalAborted\<close> is \<open>signal.aborted\<close> on entry.
  \<open>engineStart\<close> is the settlement of the awaited \<open>ShellExecutionService.execute\<close> call (the
  pid on success). For a foreground run, \<open>engineResult\<close> is the settlement of the result
  promise, and \<open>timerFired\<close> and \<open>callerAborted\<close> say whether the timeout callback ran and
  whether the caller's signal was aborted while the method waited for it. \<open>tempFileExists\<close>
  is the answer of the file system when the method first asks for the side-channel file,
  \<open>generatedId\<close> the value of \<open>generateId()\<close> and \<open>clock\<close> the time of the registration.
\<close>

record Execution =
  signalAborted :: bool
  engineStart :: "int option settled"
  engineResult :: "ShellExecutionResult settled"
  timerFired :: bool
  callerAborted :: bool
  tempFileExists :: bool
  generatedId :: string
  clock :: int

text \<open>
  The effects: a warning on the console, arming and clearing the timeout timer, adding and
  removing the listener on the caller's signal, the call of the engine with the command and
  the working directory (which starts the operating-system process), and the removal of the
  side-channel file.
\<close>

datatype effect =
    Warn string
  | SetTimeout int
  | ClearTimeout
  | AddAbortListener
  | RemoveAbortListener
  | Spawn string string
  | Unlink string

datatype exit_path =
    CancelledBeforeStart
  | BackgroundStarted
  | TimedOut
  | Reported
  | Threw

record ExecuteOutcome =
  effects :: "effect list"
  path :: exit_path
  returned :: "string + ToolResult"
  service :: BackgroundProcessService

subsection \<open>The output callback of a background launch\<close>

definition backgroundOutput ::
  "Host \<Rightarrow> string \<Rightarrow> BackgroundProcessService \<Rightarrow> ShellOutputEvent \<Rightarrow> BackgroundProcessService" where
  "backgroundOutput host bashId svc event =
     (case event of
        Data chunk \<Rightarrow> addOutput svc bashId chunk
      | BinaryDetected \<Rightarrow> addOutput svc bashId ''[Binary output detected]''
      | BinaryProgress bytesReceived \<Rightarrow>
          addOutput svc bashId
            (''[Binary output: '' @ formatMemoryUsage host bytesReceived @ '' received]''))"

subsection \<open>execute\<close>

definition effectiveTimeout :: "ShellToolParams \<Rightarrow> int" where
  "effectiveTimeout params =
     min (case param_timeout params of
            None \<Rightarrow> 120000
          | Some t \<Rightarrow> if t = 0 then 120000 else t)
         600000"

definition ends_with :: "string \<Rightarrow> string \<Rightarrow> bool" where
  "ends_with s suffix = (length suffix \<le> length s \<and> drop (length s - length suffix) s = suffix)"

definition commandToExecute :: "Host \<Rightarrow> ShellToolParams \<Rightarrow> string" where
  "commandToExecute host params =
     (let strippedCommand = stripShellWrapper host (param_command params)
      in if platformWin32 host then strippedCommand
         else (let trimmed = trim host strippedCommand;
                   command' = (if ends_with trimmed ''&'' then trimmed else trimmed @ '';'')
               in ''{ '' @ command' @ '' }; __code=$?; pgrep -g 0 >'' @ tempFilePath host @
                  '' 2>&1; exit $__code;''))"

definition pid_text :: "int option \<Rightarrow> string" where
  "pid_text p = (case p of None \<Rightarrow> ''undefined'' | Some n \<Rightarrow> string_of_int n)"

definition execute ::
  "Host \<Rightarrow> ShellToolParams \<Rightarrow> Execution \<Rightarrow> BackgroundProcessService \<Rightarrow> ExecuteOutcome" where
  "execute host params env svc =
     (let background = (param_run_in_background params = Some True);
          setup =
            (if param_sandbox params = Some True \<and> \<not> platformWin32 host then
               [Warn ''Sandbox mode requested but not fully implemented - command will run with normal permissions'']
             else []) @
            (if \<not> background then [SetTimeout (effectiveTimeout params)] else []) @
            (if \<not> signalAborted env then [AddAbortListener] else []);
          cleanup = (if tempFileExists env then [Unlink (tempFilePath host)] else [])
      in if signalAborted env then
           \<lparr> effects = setup, path = CancelledBeforeStart,
             returned = Inr \<lparr> llmContent = ''Command was cancelled by user before it could start.'',
                               returnDisplay = ''Command cancelled by user.'' \<rparr>,
             service = svc \<rparr>
         else if background then
           (let bashId = generatedId env;
                spawn = [Spawn (commandToExecute host params) (cwd host)]
            in case engineStart env of
                 Rejected err \<Rightarrow>
                   \<lparr> effects = setup @ spawn @ [RemoveAbortListener] @ cleanup, path = Threw,
                     returned = Inl err, service = svc \<rparr>
               | Resolved pid' \<Rightarrow>
                   \<lparr> effects = setup @ spawn @ [RemoveAbortListener] @ cleanup,
                     path = BackgroundStarted,
                     returned = Inr
                       \<lparr> llmContent =
                           ''Started background process with ID: '' @ bashId @ newline @
                           ''PID: '' @ pid_text pid' @ newline @
                           ''Command: '' @ param_command params @ newline @ newline @
                           ''Use BashOutput tool with bash_id='' @ [CHR 0x22] @ bashId @
                           [CHR 0x22] @ '' to monitor the output.'' @ newline @
                           ''Use KillBash tool with bash_id='' @ [CHR 0x22] @ bashId @
                           [CHR 0x22] @ '' to terminate the process.'',
                         returnDisplay =
                           ''Background process started (ID: '' @ bashId @ '', PID: '' @
                           pid_text pid' @ '')'' \<rparr>,
                     service =
                       registerProcess svc bashId pid' (param_command params)
                         (Some pid') (Some False) (clock env) \<rparr>)
         else
           (let spawn = [Spawn (commandToExecute host params) (cwd host)]
            in case engineStart env of
                 Rejected err \<Rightarrow>
                   \<lparr> effects = setup @ spawn @ [ClearTimeout, RemoveAbortListener] @ cleanup,
                     path = Threw, returned = Inl err, service = svc \<rparr>
               | Resolved pid' \<Rightarrow>
                   (case engineResult env of
                      Rejected err \<Rightarrow>
                        \<lparr> effects = setup @ spawn @ [ClearTimeout, RemoveAbortListener] @ cleanup,
                          path = Threw, returned = Inl err, service = svc \<rparr>
                    | Resolved result \<Rightarrow>
                        if (timerFired env \<or> callerAborted env) \<and> \<not> callerAborted env then
                          \<lparr> effects = setup @ spawn @ [ClearTimeout, RemoveAbortListener] @ cleanup,
                            path = TimedOut,
                            returned = Inr
                              \<lparr> llmContent =
                                  ''Command exceeded timeout of '' @
                                  string_of_int (effectiveTimeout params) @
                                  ''ms and was terminated.'' @ newline @
                                  ''Partial output:'' @ newline @
                                  (if res_output result = [] then ''(no output before timeout)''
                                   else res_output result),
                                returnDisplay =
                                  ''Command timed out after '' @
                                  string_of_int (effectiveTimeout params) @ ''ms'' \<rparr>,
                            service = svc \<rparr>
                        else
                          (let content =
                                 (if res_aborted result then
                                    ''Command was cancelled by user before it could complete.'' @
                                    (if trim host (res_output result) \<noteq> [] then
                                       '' Below is the output before it was cancelled:'' @ newline @
                                       res_output result
                                     else '' There was no output before it was cancelled.'')
                                  else structuredReport host result)
                           in \<lparr> effects = setup @ spawn @ [ClearTimeout, RemoveAbortListener] @ cleanup,
                                path = Reported,
                                returned = Inr
                                  \<lparr> llmContent =
                                      (case summarize host of
                                         None \<Rightarrow> content
                                       | Some summary \<Rightarrow> summary content),
                                    returnDisplay = displayMessage host content result \<rparr>,
                                service = svc \<rparr>))))"

section \<open>Notions used in the statements\<close>

subsection \<open>Buffers and offsets\<close>

text \<open>The lines that a chunk contributes: its pieces between line feeds, the empty ones dropped.\<close>

definition lines_of :: "string \<Rightarrow> string list" where
  "lines_of text = filter (\<lambda>line. length line > 0) (split_newline text)"

text \<open>The number of lines that \<open>addOutput\<close> evicts when it appends a chunk to a record.\<close>

definition overflow_of :: "BackgroundProcessService \<Rightarrow> BackgroundProcess \<Rightarrow> string \<Rightarrow> nat" where
  "overflow_of s p text = length (outputBuffer p) + length (lines_of text) - MAX_BUFFER_LINES s"


text \<open>The buffer, the offset of a consumer and the status stored under an id.\<close>

definition buffer_of :: "BackgroundProcessService \<Rightarrow> string \<Rightarrow> string list" where
  "buffer_of s bashId = (case processes s bashId of None \<Rightarrow> [] | Some p \<Rightarrow> outputBuffer p)"

definition offset_of :: "BackgroundProcessService \<Rightarrow> string \<Rightarrow> string \<Rightarrow> int option" where
  "offset_of s bashId consumerId =
     (case processes s bashId of None \<Rightarrow> None | Some p \<Rightarrow> lastReadIndex p consumerId)"

definition status_of :: "BackgroundProcessService \<Rightarrow> string \<Rightarrow> status option" where
  "status_of s bashId = map_option status (processes s bashId)"

text \<open>A sequence of \<open>addOutput\<close> calls on one id.\<close>

definition addOutputs ::
  "BackgroundProcessService \<Rightarrow> string \<Rightarrow> string list \<Rightarrow> BackgroundProcessService" where
  "addOutputs s bashId texts = foldl (\<lambda>s' text. addOutput s' bashId text) s texts"

text \<open>Three invariants of the service: no buffer exceeds the limit, every stored offset
  lies between 0 and the length of its buffer, and no record carries a usage figure.\<close>

definition buffers_bounded :: "BackgroundProcessService \<Rightarrow> bool" where
  "buffers_bounded s =
     (\<forall>b p. processes s b = Some p \<longrightarrow> length (outputBuffer p) \<le> MAX_BUFFER_LINES s)"

definition offsets_in_range :: "BackgroundProcessService \<Rightarrow> bool" where
  "offsets_in_range s =
     (\<forall>b p c j. processes s b = Some p \<longrightarrow> lastReadIndex p c = Some j \<longrightarrow>
        0 \<le> j \<and> j \<le> int (length (outputBuffer p)))"

definition usage_untracked :: "BackgroundProcessService \<Rightarrow> bool" where
  "usage_untracked s =
     (\<forall>b p. processes s b = Some p \<longrightarrow> memoryUsage p = None \<and> fileDescriptors p = None)"

subsection \<open>Polls\<close>

text \<open>The consumer that a poll acts for: the argument, or the default of the signature.\<close>

definition consumer_name :: "string option \<Rightarrow> string" where
  "consumer_name consumerId = (case consumerId of None \<Rightarrow> ''default'' | Some c \<Rightarrow> c)"

text \<open>The lines of a record that a consumer has not read, and the service after the
  consumer's offset has been moved to the end of the buffer.\<close>

definition unread :: "BackgroundProcess \<Rightarrow> string \<Rightarrow> string list" where
  "unread p consumerId =
     slice (outputBuffer p) (case lastReadIndex p consumerId of None \<Rightarrow> 0 | Some i \<Rightarrow> i)"

definition advance :: "BackgroundProcessService \<Rightarrow> string \<Rightarrow> BackgroundProcess \<Rightarrow> string \<Rightarrow>
    BackgroundProcessService" where
  "advance s bashId p consumerId =
     s\<lparr>processes := (processes s)(bashId \<mapsto>
        p\<lparr>lastReadIndex := (lastReadIndex p)(consumerId \<mapsto> int (length (outputBuffer p)))\<rparr>)\<rparr>"

subsection \<open>Events\<close>

text \<open>The events that delete the record of an id, and those that create one under it.\<close>

fun removes :: "string \<Rightarrow> event \<Rightarrow> bool" where
  "removes b (CleanupTimer b' now) = (b' = b)"
| "removes b ClearAll = True"
| "removes b _ = False"

fun registers :: "string \<Rightarrow> event \<Rightarrow> bool" where
  "registers b (RegisterProcess b' p c h a now) = (b' = b)"
| "registers b _ = False"

text \<open>The events that settle the result promise of the execution registered under an id.\<close>

fun settles :: "string \<Rightarrow> event \<Rightarrow> bool" where
  "settles b (ResultResolved b' code now) = (b' = b)"
| "settles b (ResultRejected b' msg now) = (b' = b)"
| "settles b _ = False"

text \<open>The state in which a \<open>killProcess\<close> call on a running record resumes after its wait.\<close>

definition after_wait ::
  "RegExp \<Rightarrow> BackgroundProcessService \<Rightarrow> string \<Rightarrow> event list \<Rightarrow> BackgroundProcessService" where
  "after_wait R s bashId window =
     (case processes s bashId of
        None \<Rightarrow> s
      | Some process \<Rightarrow>
          (case abortController process of
             None \<Rightarrow> s
           | Some _ \<Rightarrow> run R (abortSent s bashId) window))"

text \<open>The text that the callback of a background launch hands to \<open>addOutput\<close> for an event.\<close>

definition event_text :: "Host \<Rightarrow> ShellOutputEvent \<Rightarrow> string" where
  "event_text host event =
     (case event of
        Data chunk \<Rightarrow> chunk
      | BinaryDetected \<Rightarrow> ''[Binary output detected]''
      | BinaryProgress bytesReceived \<Rightarrow>
          ''[Binary output: '' @ formatMemoryUsage host bytesReceived @ '' received]'')"

text \<open>
  A callback that runs on the supervisor after a background launch: an output event of the
  launched execution, which the engine passes to the callback of the launch, or a callback
  of any other origin.
\<close>

datatype callback = Output ShellOutputEvent | Other event

fun callback_step ::
  "Host \<Rightarrow> RegExp \<Rightarrow> string \<Rightarrow> BackgroundProcessService \<Rightarrow> callback \<Rightarrow> BackgroundProcessService" where
  "callback_step host R bashId svc (Output ev) = backgroundOutput host bashId svc ev"
| "callback_step host R bashId svc (Other e) = step R svc e"




subsection \<open>Inputs of the worked examples\<close>

text \<open>A service whose limit is three lines.\<close>

definition three_line_service :: BackgroundProcessService where
  "three_line_service = getInstance\<lparr>MAX_BUFFER_LINES := 3\<rparr>"

text \<open>
  A stand-in for the constructor of regular expressions: it rejects the pattern \<open>(\<close> and
  compiles every other pattern to the test that accepts a line iff the pattern is a prefix
  of it.
\<close>

definition rejects_open_paren :: RegExp where
  "rejects_open_paren f = (if f = ''('' then None else Some (\<lambda>line. take (length f) line = f))"

text \<open>A service with one process, registered with a handle and an abort controller.\<close>

definition launched :: BackgroundProcessService where
  "launched = registerProcess getInstance ''b'' (Some 7) ''sleep 5'' (Some (Some 7)) (Some False) 0"

text \<open>A host, a foreground and a background request, the result of a killed command and
  an environment in which nothing fires.\<close>

definition example_host :: Host where
  "example_host =
     \<lparr> stripShellWrapper = (\<lambda>c. c),
       trim = (\<lambda>s. rev (dropWhile (\<lambda>c. c = CHR '' '') (rev (dropWhile (\<lambda>c. c = CHR '' '') s)))),
       formatMemoryUsage = (\<lambda>n. string_of_nat n @ '' B''),
       structuredReport = (\<lambda>r. ''Output: '' @ res_output r),
       displayMessage = (\<lambda>c r. res_output r),
       summarize = None,
       platformWin32 = False,
       tempFilePath = ''/tmp/shell_pgrep_0a1b2c3d4e5f.tmp'',
       cwd = ''/work'' \<rparr>"

definition sleep_params :: ShellToolParams where
  "sleep_params =
     \<lparr> param_command = ''sleep 30'', param_timeout = Some 10, param_description = None,
       param_run_in_background = None, param_sandbox = None, param_directory = None \<rparr>"


definition killed_result :: ShellExecutionResult where
  "killed_result =
     \<lparr> res_output = [], res_error = None, res_exitCode = None, res_signal = Some 15,
       res_aborted = True, res_pid = Some 7 \<rparr>"

definition quiet_run :: Execution where
  "quiet_run =
     \<lparr> signalAborted = False, engineStart = Resolved (Some 7),
       engineResult = Resolved killed_result, timerFired = False, callerAborted = False,
       tempFileExists = True, generatedId = ''bash_1'', clock = 0 \<rparr>"

section \<open>Properties of the supervisor\<close>

subsection \<open>Effect of addOutput on one record\<close>

lemma split_newline_single:
  "CHR 0x0A \<notin> set l \<Longrightarrow> split_newline l = [l]"
  by (induction l) auto

lemma lines_of_single:
  "CHR 0x0A \<notin> set l \<Longrightarrow> l \<noteq> [] \<Longrightarrow> lines_of l = [l]"
  by (simp add: lines_of_def split_newline_single)

lemma addOutput_unknown:
  "processes s bashId = None \<Longrightarrow> addOutput s bashId text = s"
  by (simp add: addOutput_def)

lemma addOutput_other:
  "other \<noteq> bashId \<Longrightarrow> processes (addOutput s bashId text) other = processes s other"
  by (auto simp: addOutput_def Let_def split: option.splits)

lemma addOutput_fields [simp]:
  "MAX_BUFFER_LINES (addOutput s bashId text) = MAX_BUFFER_LINES s"
  "CLEANUP_TIMEOUT_MS (addOutput s bashId text) = CLEANUP_TIMEOUT_MS s"
  "cleanupTimers (addOutput s bashId text) = cleanupTimers s"
  by (auto simp: addOutput_def Let_def split: option.splits)

lemma addOutput_known:
  assumes "processes s bashId = Some p"
  shows "processes (addOutput s bashId text) bashId =
           Some (p\<lparr>outputBuffer := drop (overflow_of s p text) (outputBuffer p @ lines_of text),
                   lastReadIndex :=
                     (if overflow_of s p text = 0 then lastReadIndex p
                      else (\<lambda>c. map_option (\<lambda>index. max 0 (index - int (overflow_of s p text)))
                                (lastReadIndex p c)))\<rparr>)"
  using assms
  by (auto simp: addOutput_def Let_def lines_of_def overflow_of_def)

lemma addOutput_length:
  assumes "processes (addOutput s bashId text) b = Some p'" "processes s bashId \<noteq> None"
  shows "b = bashId \<Longrightarrow> length (outputBuffer p') \<le> MAX_BUFFER_LINES s"
  using assms
  by (auto simp: addOutput_known overflow_of_def)

subsection \<open>The buffer bound as an invariant\<close>

lemma addOutput_bounded:
  assumes "buffers_bounded s"
  shows "buffers_bounded (addOutput s bashId text)"
proof (cases "processes s bashId")
  case None
  with assms show ?thesis by (simp add: addOutput_unknown)
next
  case (Some p)
  show ?thesis
    unfolding buffers_bounded_def
  proof (intro allI impI)
    fix b p'
    assume h: "processes (addOutput s bashId text) b = Some p'"
    show "length (outputBuffer p') \<le> MAX_BUFFER_LINES (addOutput s bashId text)"
    proof (cases "b = bashId")
      case True
      with h Some show ?thesis by (auto simp: addOutput_known overflow_of_def)
    next
      case False
      with h assms show ?thesis by (simp add: addOutput_other buffers_bounded_def)
    qed
  qed
qed

lemma scheduleCleanup_fields [simp]:
  "processes (scheduleCleanup s b now) = processes s"
  "MAX_BUFFER_LINES (scheduleCleanup s b now) = MAX_BUFFER_LINES s"
  by (simp_all add: scheduleCleanup_def)

lemma step_MAX [simp]: "MAX_BUFFER_LINES (step R s e) = MAX_BUFFER_LINES s"
  by (cases e)
     (auto simp: registerProcess_def getNewOutput_def markProcessCompleted_def
        markProcessFailed_def markProcessTerminated_def abortSent_def cleanupTimerFires_def
        clearAll_def Let_def split: option.splits)

lemma run_MAX [simp]: "MAX_BUFFER_LINES (run R s evs) = MAX_BUFFER_LINES s"
  unfolding run_def by (induction evs arbitrary: s) simp_all

lemma markProcessFailed_bounded:
  assumes "buffers_bounded s"
  shows "buffers_bounded (markProcessFailed s b msg now)"
proof (cases "processes s b")
  case None
  with assms show ?thesis by (simp add: markProcessFailed_def)
next
  case (Some p)
  let ?s1 = "s\<lparr>processes := (processes s)(b \<mapsto> p\<lparr>status := Failed, endTime := Some now\<rparr>)\<rparr>"
  have "buffers_bounded ?s1"
    using assms Some by (auto simp: buffers_bounded_def)
  then have "buffers_bounded (addOutput ?s1 b (''Process failed: '' @ msg))"
    by (rule addOutput_bounded)
  then show ?thesis
    using Some by (simp add: markProcessFailed_def buffers_bounded_def)
qed

lemma step_bounded:
  assumes "buffers_bounded s"
  shows "buffers_bounded (step R s e)"
proof (cases e)
  case (AddOutput b t)
  with assms show ?thesis by (simp add: addOutput_bounded)
next
  case (ResultRejected b m n)
  with assms show ?thesis by (simp add: markProcessFailed_bounded)
next
  case (RegisterProcess b p c h a n)
  with assms show ?thesis by (auto simp: buffers_bounded_def registerProcess_def)
next
  case (GetNewOutput b c f)
  with assms show ?thesis
    by (auto simp: buffers_bounded_def getNewOutput_def Let_def split: option.splits if_splits)
next
  case (ResultResolved b c n)
  with assms show ?thesis
    by (auto simp: buffers_bounded_def markProcessCompleted_def split: option.splits if_splits)
next
  case (AbortSent b)
  with assms show ?thesis
    by (auto simp: buffers_bounded_def abortSent_def split: option.splits if_splits)
next
  case (MarkTerminated b sg n)
  with assms show ?thesis
    by (auto simp: buffers_bounded_def markProcessTerminated_def split: option.splits if_splits)
next
  case (CleanupTimer b n)
  with assms show ?thesis
    by (auto simp: buffers_bounded_def cleanupTimerFires_def split: option.splits if_splits)
next
  case ClearAll
  then show ?thesis by (simp add: buffers_bounded_def clearAll_def)
qed

lemma run_bounded: "buffers_bounded s \<Longrightarrow> buffers_bounded (run R s evs)"
  unfolding run_def by (induction evs arbitrary: s) (simp_all add: step_bounded)

lemma getInstance_bounded: "buffers_bounded getInstance"
  by (simp add: buffers_bounded_def getInstance_def)

lemma addOutputs_run: "addOutputs s b texts = run R s (map (AddOutput b) texts)"
  unfolding addOutputs_def run_def by (induction texts arbitrary: s) simp_all

lemma addOutput_registered:
  "processes s b \<noteq> None \<Longrightarrow> processes (addOutput s b t) b \<noteq> None"
  by (auto simp: addOutput_known)

lemma addOutputs_registered:
  "processes s b \<noteq> None \<Longrightarrow> processes (addOutputs s b texts) b \<noteq> None"
proof (induction texts arbitrary: s)
  case Nil
  then show ?case by (simp add: addOutputs_def)
next
  case (Cons t texts)
  from Cons.prems have "processes (addOutput s b t) b \<noteq> None"
    by (rule addOutput_registered)
  from Cons.IH [OF this] show ?case by (simp add: addOutputs_def)
qed

text \<open>
  Claim C1. Take any state that the service reaches from its construction by any sequence of
  callbacks, and a process registered in it. After any sequence of \<open>addOutput\<close> calls on
  that process (so also after every call of a longer sequence) the process is still
  registered and its buffer holds at most 10000 lines.
\<close>

theorem C1_buffer_bound:
  assumes "processes (run RegExp getInstance evs) bashId = Some p"
  shows "\<exists>p'. processes (addOutputs (run RegExp getInstance evs) bashId texts) bashId = Some p'
            \<and> length (outputBuffer p') \<le> 10000"
proof -
  let ?s = "run RegExp getInstance evs"
  from assms have "processes (addOutputs ?s bashId texts) bashId \<noteq> None"
    by (intro addOutputs_registered) simp
  then obtain p' where p': "processes (addOutputs ?s bashId texts) bashId = Some p'"
    by blast
  have "buffers_bounded (addOutputs ?s bashId texts)"
    by (simp add: addOutputs_run [where R = RegExp] run_bounded getInstance_bounded)
  with p' have "length (outputBuffer p') \<le> MAX_BUFFER_LINES (addOutputs ?s bashId texts)"
    by (simp add: buffers_bounded_def)
  also have "\<dots> = 10000"
    by (simp add: addOutputs_run [where R = RegExp] getInstance_def)
  finally show ?thesis using p' by simp
qed

theorem C1_buffer_bound_witness:
  "processes (run (\<lambda>f. None) getInstance
      [RegisterProcess ''bash_1'' (Some 42) ''ls'' (Some (Some 42)) (Some False) 0]) ''bash_1''
     \<noteq> None \<and>
   (\<exists>p'. processes (addOutputs (run (\<lambda>f. None) getInstance
      [RegisterProcess ''bash_1'' (Some 42) ''ls'' (Some (Some 42)) (Some False) 0])
        ''bash_1'' [''a'', ''b'']) ''bash_1'' = Some p'
      \<and> length (outputBuffer p') \<le> 10000)"
proof -
  have reg: "processes (run (\<lambda>f. None) getInstance
      [RegisterProcess ''bash_1'' (Some 42) ''ls'' (Some (Some 42)) (Some False) 0]) ''bash_1''
     \<noteq> None"
    by (simp add: run_def registerProcess_def)
  then obtain p where "processes (run (\<lambda>f. None) getInstance
      [RegisterProcess ''bash_1'' (Some 42) ''ls'' (Some (Some 42)) (Some False) 0]) ''bash_1''
     = Some p" by blast
  from C1_buffer_bound [OF this, of "[''a'', ''b'']"] reg show ?thesis by blast
qed

subsection \<open>Read offsets under eviction\<close>

lemma addOutput_buffer_of:
  assumes "processes s b = Some p"
  shows "buffer_of (addOutput s b t) b = drop (overflow_of s p t) (outputBuffer p @ lines_of t)"
  using assms by (simp add: buffer_of_def addOutput_known)

lemma addOutput_offset_of:
  assumes "processes s b = Some p"
  shows "offset_of (addOutput s b t) b c =
           (if overflow_of s p t = 0 then lastReadIndex p c
            else map_option (\<lambda>index. max 0 (index - int (overflow_of s p t))) (lastReadIndex p c))"
  using assms by (simp add: offset_of_def addOutput_known)

lemma poll_known:
  assumes "processes s b = Some p"
  shows "getNewOutput R s b (Some c) None =
           (\<lparr> pollOutput = slice (outputBuffer p) (case lastReadIndex p c of None \<Rightarrow> 0 | Some i \<Rightarrow> i),
              pollStatus = status_string (status p), pollExitCode = exitCode p, pollError = None \<rparr>,
            s\<lparr>processes := (processes s)(b \<mapsto>
                 p\<lparr>lastReadIndex := (lastReadIndex p)(c \<mapsto> int (length (outputBuffer p)))\<rparr>)\<rparr>)"
  using assms by (simp add: getNewOutput_def Let_def)

lemma addOutput_offsets:
  assumes "offsets_in_range s"
  shows "offsets_in_range (addOutput s bashId text)"
proof (cases "processes s bashId")
  case None
  with assms show ?thesis by (simp add: addOutput_unknown)
next
  case (Some p)
  show ?thesis
    unfolding offsets_in_range_def
  proof (intro allI impI)
    fix b p' c j
    assume h: "processes (addOutput s bashId text) b = Some p'" and j: "lastReadIndex p' c = Some j"
    show "0 \<le> j \<and> j \<le> int (length (outputBuffer p'))"
    proof (cases "b = bashId")
      case True
      with h Some have p': "p' = p\<lparr>outputBuffer := drop (overflow_of s p text) (outputBuffer p @ lines_of text),
                   lastReadIndex :=
                     (if overflow_of s p text = 0 then lastReadIndex p
                      else (\<lambda>c. map_option (\<lambda>index. max 0 (index - int (overflow_of s p text)))
                                (lastReadIndex p c)))\<rparr>"
        by (simp add: addOutput_known)
      show ?thesis
      proof (cases "overflow_of s p text = 0")
        case True
        with p' j have "lastReadIndex p c = Some j" by simp
        with assms Some have "0 \<le> j \<and> j \<le> int (length (outputBuffer p))"
          by (simp add: offsets_in_range_def)
        with p' True show ?thesis by simp
      next
        case False
        with p' j obtain k where k: "lastReadIndex p c = Some k"
          and jk: "j = max 0 (k - int (overflow_of s p text))" by auto
        from assms Some k have "0 \<le> k \<and> k \<le> int (length (outputBuffer p))"
          by (simp add: offsets_in_range_def)
        with p' jk show ?thesis by auto
      qed
    next
      case False
      with h j assms show ?thesis by (simp add: addOutput_other offsets_in_range_def)
    qed
  qed
qed

lemma markProcessFailed_offsets:
  assumes "offsets_in_range s"
  shows "offsets_in_range (markProcessFailed s b msg now)"
proof (cases "processes s b")
  case None
  with assms show ?thesis by (simp add: markProcessFailed_def)
next
  case (Some p)
  let ?s1 = "s\<lparr>processes := (processes s)(b \<mapsto> p\<lparr>status := Failed, endTime := Some now\<rparr>)\<rparr>"
  have "offsets_in_range ?s1"
    using assms Some by (auto simp: offsets_in_range_def)
  then have "offsets_in_range (addOutput ?s1 b (''Process failed: '' @ msg))"
    by (rule addOutput_offsets)
  then show ?thesis
    using Some by (simp add: markProcessFailed_def offsets_in_range_def)
qed

lemma step_offsets:
  assumes "offsets_in_range s"
  shows "offsets_in_range (step R s e)"
proof (cases e)
  case (AddOutput b t)
  with assms show ?thesis by (simp add: addOutput_offsets)
next
  case (ResultRejected b m n)
  with assms show ?thesis by (simp add: markProcessFailed_offsets)
next
  case (RegisterProcess b p c h a n)
  with assms show ?thesis by (auto simp: offsets_in_range_def registerProcess_def)
next
  case (GetNewOutput b c f)
  with assms show ?thesis
    by (auto simp: offsets_in_range_def getNewOutput_def Let_def split: option.splits if_splits)
next
  case (ResultResolved b c n)
  with assms show ?thesis
    by (auto simp: offsets_in_range_def markProcessCompleted_def split: option.splits if_splits)
next
  case (AbortSent b)
  with assms show ?thesis
    by (auto simp: offsets_in_range_def abortSent_def split: option.splits if_splits)
next
  case (MarkTerminated b sg n)
  with assms show ?thesis
    by (auto simp: offsets_in_range_def markProcessTerminated_def split: option.splits if_splits)
next
  case (CleanupTimer b n)
  with assms show ?thesis
    by (auto simp: offsets_in_range_def cleanupTimerFires_def split: option.splits if_splits)
next
  case ClearAll
  then show ?thesis by (simp add: offsets_in_range_def clearAll_def)
qed

lemma run_offsets: "offsets_in_range s \<Longrightarrow> offsets_in_range (run R s evs)"
  unfolding run_def by (induction evs arbitrary: s) (simp_all add: step_offsets)

lemma getInstance_offsets: "offsets_in_range getInstance"
  by (simp add: offsets_in_range_def getInstance_def)

text \<open>
  Claim C2. When \<open>addOutput\<close> evicts \<open>overflow\<close> lines from the front of a buffer, the
  buffer loses exactly its first \<open>overflow\<close> lines, the offset \<open>i\<close> of every consumer becomes
  \<open>max 0 (i - overflow)\<close>, and no offset is negative afterwards; in every state reachable
  from the construction of the service every offset lies between 0 and the length of its
  buffer. Worked example with a limit of three lines and five one-line chunks \<open>l1\<close> to
  \<open>l5\<close>: a consumer polls after the second line (offset 2); the offset is 2, 1 and 0 after
  the third, fourth and fifth append, and the next poll returns exactly \<open>[l3, l4, l5]\<close>.
\<close>

theorem C2_eviction_rebasing:
  fixes s :: BackgroundProcessService and R :: RegExp
    and b0 c0 cmd l1 l2 l3 l4 l5 :: string and pd :: "int option"
    and h :: "ShellExecutionHandle option" and a :: "AbortController option" and now :: int
  fixes s0 defines "s0 \<equiv> registerProcess three_line_service b0 pd cmd h a now"
  fixes s2 defines "s2 \<equiv> addOutput (addOutput s0 b0 l1) b0 l2"
  fixes s3 defines "s3 \<equiv> snd (getNewOutput R s2 b0 (Some c0) None)"
  fixes s4 defines "s4 \<equiv> addOutput s3 b0 l3"
  fixes s5 defines "s5 \<equiv> addOutput s4 b0 l4"
  fixes s6 defines "s6 \<equiv> addOutput s5 b0 l5"
  assumes reg: "processes s b = Some p"
    and idx: "lastReadIndex p c = Some i"
    and ev: "0 < overflow_of s p t"
    and l: "\<forall>l \<in> {l1, l2, l3, l4, l5}. l \<noteq> [] \<and> CHR 0x0A \<notin> set l"
  shows "buffer_of (addOutput s b t) b = drop (overflow_of s p t) (outputBuffer p @ lines_of t)
       \<and> offset_of (addOutput s b t) b c = Some (max 0 (i - int (overflow_of s p t)))
       \<and> (\<forall>c' j. offset_of (addOutput s b t) b c' = Some j \<longrightarrow> 0 \<le> j)
       \<and> (\<forall>b' c' j. offset_of (run R getInstance evs) b' c' = Some j \<longrightarrow>
             0 \<le> j \<and> j \<le> int (length (buffer_of (run R getInstance evs) b')))
       \<and> offset_of s3 b0 c0 = Some 2
       \<and> offset_of s4 b0 c0 = Some 2
       \<and> offset_of s5 b0 c0 = Some 1
       \<and> offset_of s6 b0 c0 = Some 0
       \<and> pollOutput (fst (getNewOutput R s6 b0 (Some c0) None)) = [l3, l4, l5]"
proof -
  have g1: "buffer_of (addOutput s b t) b = drop (overflow_of s p t) (outputBuffer p @ lines_of t)"
    using reg by (rule addOutput_buffer_of)
  have g2: "offset_of (addOutput s b t) b c = Some (max 0 (i - int (overflow_of s p t)))"
    using ev idx by (simp add: addOutput_offset_of [OF reg])
  have g3: "\<forall>c' j. offset_of (addOutput s b t) b c' = Some j \<longrightarrow> 0 \<le> j"
    using ev by (auto simp: addOutput_offset_of [OF reg])
  have ls: "lines_of l1 = [l1]" "lines_of l2 = [l2]" "lines_of l3 = [l3]"
    "lines_of l4 = [l4]" "lines_of l5 = [l5]"
    using l by (simp_all add: lines_of_single)
  have p0: "processes s0 b0 = Some \<lparr> id_bp = b0, pid = pd, command = cmd, status = Running,
      exitCode = Undefined, terminationSignal = None, outputBuffer = [],
      lastReadIndex = Map.empty, startTime = now, endTime = None, handle = h,
      abortController = a, memoryUsage = None, fileDescriptors = None \<rparr>" (is "_ = Some ?p0")
    and m0: "MAX_BUFFER_LINES s0 = 3"
    by (simp_all add: s0_def registerProcess_def three_line_service_def)
  have p1: "processes (addOutput s0 b0 l1) b0 = Some (?p0\<lparr>outputBuffer := [l1]\<rparr>)"
    by (simp add: addOutput_known [OF p0] overflow_of_def ls m0)
  have p2: "processes s2 b0 = Some (?p0\<lparr>outputBuffer := [l1, l2]\<rparr>)"
    unfolding s2_def by (simp add: addOutput_known [OF p1] overflow_of_def ls m0)
  have m2: "MAX_BUFFER_LINES s2 = 3" by (simp add: s2_def m0)
  have p3: "processes s3 b0 =
      Some (?p0\<lparr>outputBuffer := [l1, l2], lastReadIndex := [c0 \<mapsto> 2]\<rparr>)"
    and m3: "MAX_BUFFER_LINES s3 = 3"
    unfolding s3_def by (simp_all add: poll_known [OF p2] m2)
  have p4: "processes s4 b0 =
      Some (?p0\<lparr>outputBuffer := [l1, l2, l3], lastReadIndex := [c0 \<mapsto> 2]\<rparr>)"
    and m4: "MAX_BUFFER_LINES s4 = 3"
    unfolding s4_def by (simp_all add: addOutput_known [OF p3] overflow_of_def ls m3)
  have p5: "processes s5 b0 =
      Some (?p0\<lparr>outputBuffer := [l2, l3, l4], lastReadIndex := [c0 \<mapsto> 1]\<rparr>)"
    and m5: "MAX_BUFFER_LINES s5 = 3"
    unfolding s5_def by (simp_all add: addOutput_known [OF p4] overflow_of_def ls m4 fun_eq_iff)
  have p6: "processes s6 b0 =
      Some (?p0\<lparr>outputBuffer := [l3, l4, l5], lastReadIndex := [c0 \<mapsto> 0]\<rparr>)"
    unfolding s6_def by (simp add: addOutput_known [OF p5] overflow_of_def ls m5 fun_eq_iff)
  have g4: "offset_of s3 b0 c0 = Some 2" by (simp add: offset_of_def p3)
  have g5: "offset_of s4 b0 c0 = Some 2" by (simp add: offset_of_def p4)
  have g6: "offset_of s5 b0 c0 = Some 1" by (simp add: offset_of_def p5)
  have g7: "offset_of s6 b0 c0 = Some 0" by (simp add: offset_of_def p6)
  have g8: "pollOutput (fst (getNewOutput R s6 b0 (Some c0) None)) = [l3, l4, l5]"
    by (simp add: poll_known [OF p6] slice_def)
  have g9: "\<forall>b' c' j. offset_of (run R getInstance evs) b' c' = Some j \<longrightarrow>
             0 \<le> j \<and> j \<le> int (length (buffer_of (run R getInstance evs) b'))"
    using run_offsets [OF getInstance_offsets, of R evs]
    by (auto simp: offsets_in_range_def offset_of_def buffer_of_def split: option.splits)
  from g1 g2 g3 g9 g4 g5 g6 g7 g8 show ?thesis by blast
qed

theorem C2_eviction_rebasing_witness:
  "processes
     \<lparr> processes = [''b'' \<mapsto> \<lparr> id_bp = ''b'', pid = None, command = ''yes'', status = Running,
          exitCode = Undefined, terminationSignal = None, outputBuffer = [''1'', ''2'', ''3''],
          lastReadIndex = [''c'' \<mapsto> 2], startTime = 0, endTime = None, handle = None,
          abortController = None, memoryUsage = None, fileDescriptors = None \<rparr>],
       MAX_BUFFER_LINES = 3, CLEANUP_TIMEOUT_MS = 1800000, cleanupTimers = Map.empty \<rparr> ''b''
     \<noteq> None
   \<and> CHR 0x0A \<notin> set (''1'' @ ''2'' @ ''3'' @ ''4'' @ ''5'')
   \<and> offset_of (addOutput
     \<lparr> processes = [''b'' \<mapsto> \<lparr> id_bp = ''b'', pid = None, command = ''yes'', status = Running,
          exitCode = Undefined, terminationSignal = None, outputBuffer = [''1'', ''2'', ''3''],
          lastReadIndex = [''c'' \<mapsto> 2], startTime = 0, endTime = None, handle = None,
          abortController = None, memoryUsage = None, fileDescriptors = None \<rparr>],
       MAX_BUFFER_LINES = 3, CLEANUP_TIMEOUT_MS = 1800000, cleanupTimers = Map.empty \<rparr>
       ''b'' ''4'') ''b'' ''c'' = Some 1
   \<and> pollOutput (fst (getNewOutput (\<lambda>f. None)
        (addOutput (addOutput (addOutput
           (snd (getNewOutput (\<lambda>f. None)
              (addOutput (addOutput
                 (registerProcess three_line_service ''b'' None ''yes'' None None 0)
                 ''b'' ''1'') ''b'' ''2'')
              ''b'' (Some ''c'') None))
           ''b'' ''3'') ''b'' ''4'') ''b'' ''5'')
        ''b'' (Some ''c'') None)) = [''3'', ''4'', ''5'']"
proof -
  let ?p = "\<lparr> id_bp = ''b'', pid = None, command = ''yes'', status = Running,
          exitCode = Undefined, terminationSignal = None, outputBuffer = [''1'', ''2'', ''3''],
          lastReadIndex = [''c'' \<mapsto> 2], startTime = 0, endTime = None, handle = None,
          abortController = None, memoryUsage = None, fileDescriptors = None \<rparr>"
  let ?s = "\<lparr> processes = [''b'' \<mapsto> ?p],
       MAX_BUFFER_LINES = 3, CLEANUP_TIMEOUT_MS = 1800000, cleanupTimers = Map.empty \<rparr>"
  have reg: "processes ?s ''b'' = Some ?p" by simp
  have idx: "lastReadIndex ?p ''c'' = Some 2" by simp
  have l4: "lines_of ''4'' = [''4'']" by (simp add: lines_of_def)
  have ov: "overflow_of ?s ?p ''4'' = 1" by (simp add: overflow_of_def l4)
  then have ev: "0 < overflow_of ?s ?p ''4''" by simp
  have l: "\<forall>l \<in> {''1'', ''2'', ''3'', ''4'', ''5''}. l \<noteq> [] \<and> CHR 0x0A \<notin> set l" by simp
  from C2_eviction_rebasing [OF reg idx ev l, where R = "\<lambda>f. None" and ?b0.0 = "''b''"
      and pd = None and cmd = "''yes''" and h = None and a = None and now = 0
      and ?c0.0 = "''c''" and evs = "[]"] ov l
  show ?thesis by simp
qed

subsection \<open>Polling with a filter\<close>

lemma poll_invalid:
  assumes "processes s b = Some p" "f \<noteq> []" "RegExp f = None"
  shows "getNewOutput RegExp s b c (Some f) =
           (\<lparr> pollOutput = [], pollStatus = status_string (status p),
              pollExitCode = exitCode p, pollError = Some (''Invalid regex filter: '' @ f) \<rparr>, s)"
  using assms by (simp add: getNewOutput_def Let_def)

lemma poll_valid:
  assumes "processes s b = Some p" "f \<noteq> []" "RegExp f = Some test"
  shows "getNewOutput RegExp s b c (Some f) =
           (\<lparr> pollOutput = filter test (unread p (consumer_name c)),
              pollStatus = status_string (status p),
              pollExitCode = exitCode p, pollError = None \<rparr>,
            advance s b p (consumer_name c))"
  using assms by (simp add: getNewOutput_def Let_def unread_def advance_def consumer_name_def)

lemma poll_unfiltered:
  assumes "processes s b = Some p" "f = None \<or> f = Some []"
  shows "getNewOutput RegExp s b c f =
           (\<lparr> pollOutput = unread p (consumer_name c),
              pollStatus = status_string (status p),
              pollExitCode = exitCode p, pollError = None \<rparr>,
            advance s b p (consumer_name c))"
  using assms by (auto simp: getNewOutput_def Let_def unread_def advance_def consumer_name_def)

lemma poll_output_sublist:
  assumes "processes s b = Some p"
  shows "set (pollOutput (fst (getNewOutput RegExp s b c f))) \<subseteq> set (unread p (consumer_name c))"
proof (cases "f = None \<or> f = Some []")
  case True
  then show ?thesis by (simp add: poll_unfiltered [OF assms])
next
  case False
  then obtain g where g: "f = Some g" "g \<noteq> []" by (cases f) auto
  show ?thesis
  proof (cases "RegExp g")
    case None
    then show ?thesis using g by (simp add: poll_invalid [OF assms])
  next
    case (Some test)
    then show ?thesis using g by (simp add: poll_valid [OF assms])
  qed
qed

lemma slice_all_read [simp]: "slice xs (int (length xs)) = []"
  by (simp add: slice_def)

text \<open>
  Claim C5. A poll whose filter the \<open>RegExp\<close> constructor rejects returns the error result
  with no lines and leaves the whole service as it was, so the offset of every consumer is
  unchanged; the next poll of the same consumer without a filter returns what it would have
  returned without the failed call.
\<close>

theorem C5_invalid_filter_keeps_offset:
  assumes "processes s b = Some p" and "f \<noteq> []" and "RegExp f = None"
  shows "pollError (fst (getNewOutput RegExp s b c (Some f))) = Some (''Invalid regex filter: '' @ f)
       \<and> pollOutput (fst (getNewOutput RegExp s b c (Some f))) = []
       \<and> snd (getNewOutput RegExp s b c (Some f)) = s
       \<and> offset_of (snd (getNewOutput RegExp s b c (Some f))) b (consumer_name c)
           = offset_of s b (consumer_name c)
       \<and> getNewOutput RegExp (snd (getNewOutput RegExp s b c (Some f))) b c None
           = getNewOutput RegExp s b c None
       \<and> pollOutput (fst (getNewOutput RegExp s b c None)) = unread p (consumer_name c)"
  using assms by (simp add: poll_invalid poll_unfiltered)

theorem C5_invalid_filter_keeps_offset_witness:
  "processes (addOutput (registerProcess getInstance ''b'' None ''ls'' None None 0) ''b'' ''x'') ''b''
     \<noteq> None
   \<and> rejects_open_paren ''('' = None
   \<and> pollError (fst (getNewOutput rejects_open_paren
        (addOutput (registerProcess getInstance ''b'' None ''ls'' None None 0) ''b'' ''x'')
        ''b'' (Some ''c'') (Some ''(''))) = Some ''Invalid regex filter: (''
   \<and> pollOutput (fst (getNewOutput rejects_open_paren
        (snd (getNewOutput rejects_open_paren
           (addOutput (registerProcess getInstance ''b'' None ''ls'' None None 0) ''b'' ''x'')
           ''b'' (Some ''c'') (Some ''('')))
        ''b'' (Some ''c'') None)) = [''x'']"
proof -
  let ?s = "addOutput (registerProcess getInstance ''b'' None ''ls'' None None 0) ''b'' ''x''"
  have reg: "processes ?s ''b'' = Some \<lparr> id_bp = ''b'', pid = None, command = ''ls'',
      status = Running, exitCode = Undefined, terminationSignal = None, outputBuffer = [''x''],
      lastReadIndex = Map.empty, startTime = 0, endTime = None, handle = None,
      abortController = None, memoryUsage = None, fileDescriptors = None \<rparr>"
    by (simp add: addOutput_def registerProcess_def getInstance_def Let_def)
  have f: "''('' \<noteq> []" by simp
  have bad: "rejects_open_paren ''('' = None" by (simp add: rejects_open_paren_def)
  from C5_invalid_filter_keeps_offset
    [where RegExp = rejects_open_paren and f = "''(''" and c = "Some ''c''", OF reg f bad] reg bad
  show ?thesis by (simp add: unread_def slice_def consumer_name_def)
qed

text \<open>
  Claim C6. A poll with a filter that compiles returns the matching unread lines and sets
  the offset of the consumer to the length of the buffer, whatever matched. A second poll of
  the same consumer, with any filter or none, returns nothing; and after a further
  \<open>addOutput\<close> a poll without filter returns only lines of the new chunk (all of them, unless
  the eviction has already cut into the chunk itself): no line of the earlier buffer, matched
  or not, is offered again.
\<close>

theorem C6_valid_filter_advances:
  assumes "processes s b = Some p" and "f \<noteq> []" and "RegExp f = Some test"
  shows "pollOutput (fst (getNewOutput RegExp s b c (Some f)))
           = filter test (unread p (consumer_name c))
       \<and> offset_of (snd (getNewOutput RegExp s b c (Some f))) b (consumer_name c)
           = Some (int (length (outputBuffer p)))
       \<and> buffer_of (snd (getNewOutput RegExp s b c (Some f))) b = outputBuffer p
       \<and> pollOutput (fst (getNewOutput RegExp (snd (getNewOutput RegExp s b c (Some f))) b c f2))
           = []
       \<and> pollOutput (fst (getNewOutput RegExp
            (addOutput (snd (getNewOutput RegExp s b c (Some f))) b t) b c None))
           = drop (overflow_of s p t - length (outputBuffer p)) (lines_of t)"
proof -
  let ?c = "consumer_name c"
  let ?n = "length (outputBuffer p)"
  let ?p1 = "p\<lparr>lastReadIndex := (lastReadIndex p)(?c \<mapsto> int ?n)\<rparr>"
  let ?s1 = "advance s b p ?c"
  have r: "getNewOutput RegExp s b c (Some f) =
           (\<lparr> pollOutput = filter test (unread p ?c), pollStatus = status_string (status p),
              pollExitCode = exitCode p, pollError = None \<rparr>, ?s1)"
    using assms by (rule poll_valid)
  have p1: "processes ?s1 b = Some ?p1" by (simp add: advance_def)
  have m1: "MAX_BUFFER_LINES ?s1 = MAX_BUFFER_LINES s" by (simp add: advance_def)
  have g1: "pollOutput (fst (getNewOutput RegExp s b c (Some f))) = filter test (unread p ?c)"
    by (simp add: r)
  have g2: "offset_of (snd (getNewOutput RegExp s b c (Some f))) b ?c = Some (int ?n)"
    by (simp add: r offset_of_def p1)
  have g3: "buffer_of (snd (getNewOutput RegExp s b c (Some f))) b = outputBuffer p"
    by (simp add: r buffer_of_def p1)
  have "unread ?p1 ?c = []" by (simp add: unread_def)
  with poll_output_sublist [OF p1, of RegExp c f2]
  have g4: "pollOutput (fst (getNewOutput RegExp (snd (getNewOutput RegExp s b c (Some f))) b c f2)) = []"
    by (simp add: r)
  let ?ov = "overflow_of s p t"
  have ov: "overflow_of ?s1 ?p1 t = ?ov" by (simp add: overflow_of_def m1)
  let ?p2 = "?p1\<lparr>outputBuffer := drop ?ov (outputBuffer p @ lines_of t),
                   lastReadIndex :=
                     (if ?ov = 0 then lastReadIndex ?p1
                      else (\<lambda>c. map_option (\<lambda>index. max 0 (index - int ?ov))
                                (lastReadIndex ?p1 c)))\<rparr>"
  have p2: "processes (addOutput ?s1 b t) b = Some ?p2"
    using addOutput_known [OF p1, of t] by (simp add: ov)
  have "unread ?p2 ?c = drop (?ov - ?n) (lines_of t)"
  proof (cases "?ov = 0")
    case True
    then show ?thesis by (simp add: unread_def slice_def)
  next
    case False
    show ?thesis
    proof (cases "?ov \<le> ?n")
      case True
      then have "nat (max 0 (int ?n - int ?ov)) = ?n - ?ov" by simp
      with False True show ?thesis by (simp add: unread_def slice_def)
    next
      case gt: False
      then have "max 0 (int ?n - int ?ov) = 0" by simp
      with False gt show ?thesis by (simp add: unread_def slice_def)
    qed
  qed
  then have g5: "pollOutput (fst (getNewOutput RegExp
            (addOutput (snd (getNewOutput RegExp s b c (Some f))) b t) b c None))
           = drop (?ov - ?n) (lines_of t)"
    by (simp add: r poll_unfiltered [OF p2])
  from g1 g2 g3 g4 g5 show ?thesis by blast
qed

theorem C6_valid_filter_advances_witness:
  "processes (addOutput (registerProcess getInstance ''b'' None ''ls'' None None 0) ''b''
       (''err: x'' @ newline @ ''ok'')) ''b'' \<noteq> None
   \<and> rejects_open_paren ''err'' \<noteq> None
   \<and> pollOutput (fst (getNewOutput rejects_open_paren
        (addOutput (registerProcess getInstance ''b'' None ''ls'' None None 0) ''b''
           (''err: x'' @ newline @ ''ok''))
        ''b'' None (Some ''err''))) = [''err: x'']
   \<and> offset_of (snd (getNewOutput rejects_open_paren
        (addOutput (registerProcess getInstance ''b'' None ''ls'' None None 0) ''b''
           (''err: x'' @ newline @ ''ok''))
        ''b'' None (Some ''err''))) ''b'' ''default'' = Some 2
   \<and> pollOutput (fst (getNewOutput rejects_open_paren
        (snd (getNewOutput rejects_open_paren
           (addOutput (registerProcess getInstance ''b'' None ''ls'' None None 0) ''b''
              (''err: x'' @ newline @ ''ok''))
           ''b'' None (Some ''err'')))
        ''b'' None None)) = []
   \<and> pollOutput (fst (getNewOutput rejects_open_paren
        (addOutput (snd (getNewOutput rejects_open_paren
           (addOutput (registerProcess getInstance ''b'' None ''ls'' None None 0) ''b''
              (''err: x'' @ newline @ ''ok''))
           ''b'' None (Some ''err''))) ''b'' ''later'')
        ''b'' None None)) = [''later'']"
proof -
  let ?s = "addOutput (registerProcess getInstance ''b'' None ''ls'' None None 0) ''b''
       (''err: x'' @ newline @ ''ok'')"
  let ?p = "\<lparr> id_bp = ''b'', pid = None, command = ''ls'',
      status = Running, exitCode = Undefined, terminationSignal = None,
      outputBuffer = [''err: x'', ''ok''],
      lastReadIndex = Map.empty, startTime = 0, endTime = None, handle = None,
      abortController = None, memoryUsage = None, fileDescriptors = None \<rparr>"
  have reg: "processes ?s ''b'' = Some ?p"
    by (simp add: addOutput_def registerProcess_def getInstance_def Let_def newline_def)
  have f: "''err'' \<noteq> []" by simp
  have ok: "rejects_open_paren ''err'' = Some (\<lambda>line. take (length ''err'') line = ''err'')"
    by (simp add: rejects_open_paren_def)
  have later: "lines_of ''later'' = [''later'']" by (simp add: lines_of_def)
  have ov: "overflow_of ?s ?p ''later'' = 0"
    by (simp add: overflow_of_def later addOutput_def registerProcess_def getInstance_def Let_def)
  from C6_valid_filter_advances
    [where RegExp = rejects_open_paren and f = "''err''" and c = None and ?f2.0 = None
       and t = "''later''", OF reg f ok] reg ok later ov
  show ?thesis by (simp add: unread_def slice_def consumer_name_def)
qed

subsection \<open>Lifecycle of a record\<close>

lemma status_of_Some:
  "status_of s b = Some st \<longleftrightarrow> (\<exists>p. processes s b = Some p \<and> status p = st)"
  by (cases "processes s b") (auto simp: status_of_def)

lemma status_of_None: "status_of s b = None \<longleftrightarrow> processes s b = None"
  by (simp add: status_of_def)

lemma addOutput_status [simp]: "status_of (addOutput s b t) b' = status_of s b'"
proof (cases "b' = b")
  case True
  then show ?thesis
    by (cases "processes s b") (simp_all add: status_of_def addOutput_unknown addOutput_known)
next
  case False
  then show ?thesis by (simp add: status_of_def addOutput_other)
qed

lemma scheduleCleanup_status [simp]: "status_of (scheduleCleanup s b now) b' = status_of s b'"
  by (simp add: status_of_def)

lemma registerProcess_status:
  "status_of (registerProcess s b p c h a now) b' = (if b' = b then Some Running else status_of s b')"
  by (simp add: status_of_def registerProcess_def)

lemma getNewOutput_status [simp]:
  "status_of (snd (getNewOutput R s b c f)) b' = status_of s b'"
  by (auto simp: status_of_def getNewOutput_def Let_def split: option.splits)

lemma markProcessCompleted_status:
  "status_of (markProcessCompleted s b code now) b' =
     (if b' = b \<and> status_of s b \<noteq> None then Some Completed else status_of s b')"
  by (auto simp: status_of_def markProcessCompleted_def split: option.splits)

lemma markProcessTerminated_status:
  "status_of (markProcessTerminated s b sg now) b' =
     (if b' = b \<and> status_of s b \<noteq> None then Some Terminated else status_of s b')"
  by (auto simp: status_of_def markProcessTerminated_def split: option.splits)

lemma markProcessFailed_status:
  "status_of (markProcessFailed s b msg now) b' =
     (if b' = b \<and> status_of s b \<noteq> None then Some Failed else status_of s b')"
proof (cases "processes s b")
  case None
  then show ?thesis by (auto simp: markProcessFailed_def status_of_def)
next
  case (Some p)
  then show ?thesis
    by (simp add: markProcessFailed_def) (simp add: status_of_def)
qed

lemma abortSent_status [simp]: "status_of (abortSent s b) b' = status_of s b'"
  by (auto simp: status_of_def abortSent_def split: option.splits)

lemma cleanupTimerFires_status:
  "status_of (cleanupTimerFires s b now) b' = status_of s b' \<or>
   (b' = b \<and> status_of (cleanupTimerFires s b now) b' = None)"
  by (auto simp: status_of_def cleanupTimerFires_def split: option.splits)

lemma clearAll_status [simp]: "status_of (clearAll s) b' = None"
  by (simp add: status_of_def clearAll_def)

text \<open>What one callback can do to the status stored under an id.\<close>

lemma step_status:
  "status_of (step R s e) b = status_of s b
   \<or> (status_of (step R s e) b = None \<and> removes b e)
   \<or> (status_of (step R s e) b = Some Running \<and> registers b e)
   \<or> (status_of s b \<noteq> None \<and> status_of (step R s e) b = Some Completed
        \<and> (\<exists>code now. e = ResultResolved b code now))
   \<or> (status_of s b \<noteq> None \<and> status_of (step R s e) b = Some Failed
        \<and> (\<exists>msg now. e = ResultRejected b msg now))
   \<or> (status_of s b \<noteq> None \<and> status_of (step R s e) b = Some Terminated
        \<and> (\<exists>sg now. e = MarkTerminated b sg now))"
proof (cases e)
  case (CleanupTimer b' now)
  then show ?thesis using cleanupTimerFires_status [of s b' now b] by auto
qed (auto simp: registerProcess_status markProcessCompleted_status
       markProcessFailed_status markProcessTerminated_status)

lemma step_keeps_record:
  assumes "status_of s b \<noteq> None" "\<not> removes b e"
  shows "status_of (step R s e) b \<noteq> None"
  using step_status [of R s e b] assms by auto

lemma run_keeps_record:
  assumes "status_of s b \<noteq> None" "\<forall>e \<in> set evs. \<not> removes b e"
  shows "status_of (run R s evs) b \<noteq> None"
  using assms unfolding run_def
proof (induction evs arbitrary: s)
  case Nil
  then show ?case by simp
next
  case (Cons e evs)
  from Cons.prems have "status_of (step R s e) b \<noteq> None"
    by (intro step_keeps_record) simp_all
  with Cons show ?case by simp
qed

subsection \<open>killProcess on a terminal and on a running record\<close>

lemma kill_terminal:
  assumes "processes s b = Some p" "status p \<noteq> Running"
  shows "snd (killProcess R s b now r1 r2 w now') = s"
    and "\<not> success (fst (killProcess R s b now r1 r2 w now'))"
    and "status p = Terminated \<Longrightarrow>
           message (fst (killProcess R s b now r1 r2 w now')) =
             ''Process '' @ b @ '' was already terminated''"
    and "status p = Failed \<Longrightarrow>
           message (fst (killProcess R s b now r1 r2 w now')) =
             ''Process '' @ b @ '' has already failed''"
    and "status p = Completed \<Longrightarrow>
           take 29 (message (fst (killProcess R s b now r1 r2 w now'))) =
             ''Process has already completed''"
  using assms by (cases "status p"; simp add: killProcess_def)+

lemma kill_running_success:
  assumes "processes s b = Some p" "status p = Running"
  shows "success (fst (killProcess R s b now r1 r2 w now'))"
  using assms by (simp add: killProcess_def Let_def)

lemma kill_running_state:
  assumes "processes s b = Some p" "status p = Running"
  shows "\<exists>m. snd (killProcess R s b now r1 r2 w now') =
            markProcessTerminated (after_wait R s b w) b m now'"
  using assms by (auto simp: killProcess_def Let_def after_wait_def split: option.splits)

lemma kill_running_resources:
  assumes "processes s b = Some p" "status p = Running"
  shows "resourcesFreed (fst (killProcess R s b now r1 r2 w now')) =
           Some \<lparr> memory = (case memoryUsage p of
                      None \<Rightarrow> \<lfloor>r1\<rfloor> + 10
                    | Some m \<Rightarrow> if m \<noteq> 0 then m else \<lfloor>r1\<rfloor> + 10),
                  fileDescriptorsFreed = (case fileDescriptors p of
                      None \<Rightarrow> \<lfloor>r2\<rfloor> + 1
                    | Some n \<Rightarrow> if n \<noteq> 0 then n else \<lfloor>r2\<rfloor> + 1) \<rparr>"
  using assms by (simp add: killProcess_def Let_def)

lemma after_wait_keeps_record:
  assumes "processes s b = Some p" "\<forall>e \<in> set w. \<not> removes b e"
  shows "status_of (after_wait R s b w) b \<noteq> None"
proof (cases "abortController p")
  case None
  with assms show ?thesis by (simp add: after_wait_def status_of_def)
next
  case (Some a)
  from assms(1) have "status_of s b \<noteq> None" by (simp add: status_of_def)
  then have "status_of (abortSent s b) b \<noteq> None" by simp
  from run_keeps_record [OF this assms(2)] Some assms(1)
  show ?thesis by (simp add: after_wait_def)
qed

lemma launched_record:
  "processes launched ''b'' = Some \<lparr> id_bp = ''b'', pid = Some 7, command = ''sleep 5'',
      status = Running, exitCode = Undefined, terminationSignal = None, outputBuffer = [],
      lastReadIndex = Map.empty, startTime = 0, endTime = None, handle = Some (Some 7),
      abortController = Some False, memoryUsage = None, fileDescriptors = None \<rparr>"
  by (simp add: launched_def registerProcess_def)

subsection \<open>Transitions between the states\<close>

lemma step_not_running:
  assumes "status_of s b \<noteq> Some Running" "\<not> registers b e"
  shows "status_of (step R s e) b \<noteq> Some Running"
  using step_status [of R s e b] assms by auto

lemma run_not_running:
  assumes "status_of s b \<noteq> Some Running" "\<forall>e \<in> set evs. \<not> registers b e"
  shows "status_of (run R s evs) b \<noteq> Some Running"
  using assms unfolding run_def
proof (induction evs arbitrary: s)
  case Nil
  then show ?case by simp
next
  case (Cons e evs)
  from Cons.prems have "status_of (step R s e) b \<noteq> Some Running"
    by (intro step_not_running) simp_all
  with Cons show ?case by simp
qed

text \<open>
  Claim C3, as stated, fails. A process is launched with a handle and killed; the call
  finds no settlement during its wait and marks the record terminated. When the result
  promise of the aborted execution resolves afterwards, the continuation attached by
  \<open>registerProcess\<close> overwrites the status with completed. If the promise resolves during
  the wait instead, the record is completed when the call resumes, and the call overwrites
  that with terminated.
\<close>

theorem C3_terminal_status_overwritten:
  "status_of (snd (killProcess rejects_open_paren launched ''b'' 1000 0 0 [] 1500)) ''b''
     = Some Terminated
   \<and> status_of (step rejects_open_paren
        (snd (killProcess rejects_open_paren launched ''b'' 1000 0 0 [] 1500))
        (ResultResolved ''b'' None 1600)) ''b'' = Some Completed
   \<and> status_of (run rejects_open_paren (abortSent launched ''b'')
        [ResultResolved ''b'' None 1200]) ''b'' = Some Completed
   \<and> status_of (snd (killProcess rejects_open_paren launched ''b'' 1000 0 0
        [ResultResolved ''b'' None 1200] 1500)) ''b'' = Some Terminated"
proof -
  have r: "status_of launched ''b'' = Some Running"
    by (simp add: status_of_def launched_record)
  have k: "status_of (snd (killProcess rejects_open_paren launched ''b'' 1000 0 0 w 1500)) ''b''
      = Some Terminated" if "\<forall>e \<in> set w. \<not> removes ''b'' e" for w
  proof -
    obtain m where m: "snd (killProcess rejects_open_paren launched ''b'' 1000 0 0 w 1500) =
        markProcessTerminated (after_wait rejects_open_paren launched ''b'' w) ''b'' m 1500"
      using kill_running_state [OF launched_record, of rejects_open_paren 1000 0 0 w 1500]
      by auto
    have "status_of (after_wait rejects_open_paren launched ''b'' w) ''b'' \<noteq> None"
      using launched_record that by (rule after_wait_keeps_record)
    then show ?thesis by (simp add: m markProcessTerminated_status)
  qed
  have a: "status_of (snd (killProcess rejects_open_paren launched ''b'' 1000 0 0 [] 1500)) ''b''
     = Some Terminated" by (rule k) simp
  have b: "status_of (step rejects_open_paren
        (snd (killProcess rejects_open_paren launched ''b'' 1000 0 0 [] 1500))
        (ResultResolved ''b'' None 1600)) ''b'' = Some Completed"
    by (simp add: markProcessCompleted_status a)
  have c: "status_of (run rejects_open_paren (abortSent launched ''b'')
        [ResultResolved ''b'' None 1200]) ''b'' = Some Completed"
    by (simp add: run_def markProcessCompleted_status r)
  have d: "status_of (snd (killProcess rejects_open_paren launched ''b'' 1000 0 0
        [ResultResolved ''b'' None 1200] 1500)) ''b'' = Some Terminated" by (rule k) simp
  from a b c d show ?thesis by blast
qed

text \<open>
  Claim C3, amended. A callback other than a registration under the same id leaves the
  status of a record as it is, or sets it to completed (the result promise resolved), to
  failed (it rejected) or to terminated (the final mark of a kill), or deletes the record
  (the cleanup timer, or \<open>clearAll\<close>). These three updates are unconditional, so one
  terminal status can replace another. What holds of a terminal record is that it never
  returns to running, after one callback or after any sequence of them, and that
  \<open>killProcess\<close> called on it changes nothing.
\<close>

theorem C3_status_transitions:
  assumes "processes s b = Some p" and "\<not> registers b e"
    and "\<forall>e' \<in> set evs. \<not> registers b e'"
  shows "(status_of (step R s e) b = None \<longrightarrow> removes b e)
       \<and> (status_of (step R s e) b = Some (status p)
          \<or> status_of (step R s e) b = None
          \<or> (status_of (step R s e) b = Some Completed \<and> (\<exists>code now. e = ResultResolved b code now))
          \<or> (status_of (step R s e) b = Some Failed \<and> (\<exists>msg now. e = ResultRejected b msg now))
          \<or> (status_of (step R s e) b = Some Terminated \<and> (\<exists>sg now. e = MarkTerminated b sg now)))
       \<and> (status p \<noteq> Running \<longrightarrow> status_of (step R s e) b \<noteq> Some Running)
       \<and> (status p \<noteq> Running \<longrightarrow> status_of (run R s evs) b \<noteq> Some Running)
       \<and> (status p \<noteq> Running \<longrightarrow> snd (killProcess R s b now r1 r2 w now') = s)"
proof -
  have st: "status_of s b = Some (status p)" using assms(1) by (simp add: status_of_def)
  have g1: "status_of (step R s e) b = None \<longrightarrow> removes b e"
    using step_status [of R s e b] st assms(2) by auto
  have g2: "status_of (step R s e) b = Some (status p)
          \<or> status_of (step R s e) b = None
          \<or> (status_of (step R s e) b = Some Completed \<and> (\<exists>code now. e = ResultResolved b code now))
          \<or> (status_of (step R s e) b = Some Failed \<and> (\<exists>msg now. e = ResultRejected b msg now))
          \<or> (status_of (step R s e) b = Some Terminated \<and> (\<exists>sg now. e = MarkTerminated b sg now))"
    using step_status [of R s e b] st assms(2) by auto
  have g3: "status p \<noteq> Running \<longrightarrow> status_of (step R s e) b \<noteq> Some Running"
    using step_not_running [of s b e R] st assms(2) by simp
  have g4: "status p \<noteq> Running \<longrightarrow> status_of (run R s evs) b \<noteq> Some Running"
    using run_not_running [of s b evs R] st assms(3) by simp
  have g5: "status p \<noteq> Running \<longrightarrow> snd (killProcess R s b now r1 r2 w now') = s"
    using kill_terminal(1) [OF assms(1)] by simp
  from g1 g2 g3 g4 g5 show ?thesis by blast
qed

theorem C3_status_transitions_witness:
  "processes (markProcessTerminated launched ''b'' ''SIGTERM'' 1500) ''b'' \<noteq> None
   \<and> \<not> registers ''b'' (ResultResolved ''b'' None 1600)
   \<and> \<not> registers ''b'' (AddOutput ''b'' ''late'')
   \<and> status_of (markProcessTerminated launched ''b'' ''SIGTERM'' 1500) ''b'' = Some Terminated
   \<and> status_of (step rejects_open_paren (markProcessTerminated launched ''b'' ''SIGTERM'' 1500)
        (ResultResolved ''b'' None 1600)) ''b'' = Some Completed
   \<and> status_of (run rejects_open_paren (markProcessTerminated launched ''b'' ''SIGTERM'' 1500)
        [AddOutput ''b'' ''late'', ResultResolved ''b'' None 1600]) ''b'' \<noteq> Some Running
   \<and> snd (killProcess rejects_open_paren (markProcessTerminated launched ''b'' ''SIGTERM'' 1500)
        ''b'' 2000 0 0 [] 2500) = markProcessTerminated launched ''b'' ''SIGTERM'' 1500"
proof -
  let ?s = "markProcessTerminated launched ''b'' ''SIGTERM'' 1500"
  let ?p = "\<lparr> id_bp = ''b'', pid = Some 7, command = ''sleep 5'',
      status = Terminated, exitCode = Undefined, terminationSignal = Some ''SIGTERM'',
      outputBuffer = [], lastReadIndex = Map.empty, startTime = 0, endTime = Some 1500,
      handle = Some (Some 7), abortController = Some False, memoryUsage = None,
      fileDescriptors = None \<rparr>"
  have p: "processes ?s ''b'' = Some ?p"
    by (simp add: markProcessTerminated_def launched_record)
  have e: "\<not> registers ''b'' (ResultResolved ''b'' None 1600)" by simp
  have evs: "\<forall>e' \<in> set [AddOutput ''b'' ''late'', ResultResolved ''b'' None 1600].
      \<not> registers ''b'' e'" by simp
  have st: "status_of ?s ''b'' = Some Terminated"
    using p by (simp add: status_of_def)
  have settled: "status_of (step rejects_open_paren ?s (ResultResolved ''b'' None 1600)) ''b''
      = Some Completed"
    by (simp add: markProcessCompleted_status st)
  from C3_status_transitions [OF p e evs, of rejects_open_paren 2000 0 0 "[]" 2500] p st settled
  show ?thesis by simp
qed

subsection \<open>A second killProcess call\<close>

lemma step_stays_terminated:
  assumes "status_of s b = Some Terminated"
    and "\<not> removes b e" and "\<not> registers b e" and "\<not> settles b e"
  shows "status_of (step R s e) b = Some Terminated"
  using step_status [of R s e b] assms by auto

lemma run_stays_terminated:
  assumes "status_of s b = Some Terminated"
    and "\<forall>e \<in> set evs. \<not> removes b e \<and> \<not> registers b e \<and> \<not> settles b e"
  shows "status_of (run R s evs) b = Some Terminated"
  using assms unfolding run_def
proof (induction evs arbitrary: s)
  case Nil
  then show ?case by simp
next
  case (Cons e evs)
  from Cons.prems have "status_of (step R s e) b = Some Terminated"
    by (intro step_stays_terminated) simp_all
  with Cons show ?case by simp
qed

lemma run_snoc: "run R s (evs @ [e]) = step R (run R s evs) e"
  by (simp add: run_def)

text \<open>
  Claim C7, as stated, fails. A process is launched with a handle and killed; the first call
  succeeds and marks the record terminated. The result promise of the aborted execution
  resolves after that, and its continuation sets the record to completed. The second call
  then takes the branch for a completed record: it fails, but with the message that the
  process has already completed, not that it was already terminated.
\<close>

theorem C7_second_call_after_settlement:
  "success (fst (killProcess rejects_open_paren launched ''b'' 1000 0 0 [] 1500))
   \<and> status_of (snd (killProcess rejects_open_paren launched ''b'' 1000 0 0 [] 1500)) ''b''
       = Some Terminated
   \<and> \<not> success (fst (killProcess rejects_open_paren
        (step rejects_open_paren
           (snd (killProcess rejects_open_paren launched ''b'' 1000 0 0 [] 1500))
           (ResultResolved ''b'' None 1600))
        ''b'' 2000 0 0 [] 2500))
   \<and> take 29 (message (fst (killProcess rejects_open_paren
        (step rejects_open_paren
           (snd (killProcess rejects_open_paren launched ''b'' 1000 0 0 [] 1500))
           (ResultResolved ''b'' None 1600))
        ''b'' 2000 0 0 [] 2500))) = ''Process has already completed''
   \<and> message (fst (killProcess rejects_open_paren
        (step rejects_open_paren
           (snd (killProcess rejects_open_paren launched ''b'' 1000 0 0 [] 1500))
           (ResultResolved ''b'' None 1600))
        ''b'' 2000 0 0 [] 2500)) \<noteq> ''Process b was already terminated''"
proof -
  let ?k = "killProcess rejects_open_paren launched ''b'' 1000 0 0 [] 1500"
  let ?s2 = "step rejects_open_paren (snd ?k) (ResultResolved ''b'' None 1600)"
  let ?m = "message (fst (killProcess rejects_open_paren ?s2 ''b'' 2000 0 0 [] 2500))"
  have running: "status \<lparr> id_bp = ''b'', pid = Some 7, command = ''sleep 5'',
      status = Running, exitCode = Undefined, terminationSignal = None, outputBuffer = [],
      lastReadIndex = Map.empty, startTime = 0, endTime = None, handle = Some (Some 7),
      abortController = Some False, memoryUsage = None, fileDescriptors = None \<rparr> = Running"
    by simp
  have a: "success (fst ?k)"
    using launched_record running by (rule kill_running_success)
  obtain m where m: "snd ?k =
      markProcessTerminated (after_wait rejects_open_paren launched ''b'' []) ''b'' m 1500"
    using kill_running_state [OF launched_record running, of rejects_open_paren 1000 0 0 "[]" 1500]
    by blast
  have "status_of (after_wait rejects_open_paren launched ''b'' []) ''b'' \<noteq> None"
    using launched_record by (rule after_wait_keeps_record) simp
  then have b: "status_of (snd ?k) ''b'' = Some Terminated"
    by (simp add: m markProcessTerminated_status)
  have "status_of ?s2 ''b'' = Some Completed"
    by (simp add: markProcessCompleted_status b)
  then obtain q where q: "processes ?s2 ''b'' = Some q" "status q = Completed"
    by (auto simp: status_of_Some)
  then have nr: "status q \<noteq> Running" by simp
  note second = kill_terminal [OF q(1) nr, of rejects_open_paren 2000 0 0 "[]" 2500]
  have c: "\<not> success (fst (killProcess rejects_open_paren ?s2 ''b'' 2000 0 0 [] 2500))"
    by (rule second(2))
  have d: "take 29 ?m = ''Process has already completed''"
    using second(5) [OF q(2)] .
  have e: "?m \<noteq> ''Process b was already terminated''"
  proof
    assume "?m = ''Process b was already terminated''"
    then have "take 29 ?m = take 29 ''Process b was already terminated''" by simp
    with d show False by simp
  qed
  from a b c d e show ?thesis by blast
qed

text \<open>
  Claim C7, amended. \<open>killProcess\<close> on a running record succeeds and leaves the record
  terminated, whatever callbacks run during its wait, as long as none of them deletes the
  record. A later call on the same id, after any callbacks that neither delete the record
  nor register the id anew, fails and changes nothing. Its message is that the process was
  already terminated when no settlement of the result promise has landed between the two
  calls; when the promise has resolved last, the record is completed by then and the
  message is that the process has already completed; when it has rejected last, that it
  has already failed. On any record that is completed, failed or terminated the call
  returns a failure result with the message of that state and changes nothing. The function
  is total: every call returns a result.
\<close>

theorem C7_terminate_then_again:
  assumes "processes s b = Some p" and "status p = Running"
    and "\<forall>e \<in> set window. \<not> removes b e"
    and "\<forall>e \<in> set between. \<not> removes b e \<and> \<not> registers b e"
    and "processes s' b' = Some q" and "status q \<noteq> Running"
  shows "success (fst (killProcess R s b now r1 r2 window now'))
       \<and> status_of (snd (killProcess R s b now r1 r2 window now')) b = Some Terminated
       \<and> \<not> success (fst (killProcess R
              (run R (snd (killProcess R s b now r1 r2 window now')) between) b
              now2 r3 r4 window2 now2'))
       \<and> snd (killProcess R
              (run R (snd (killProcess R s b now r1 r2 window now')) between) b
              now2 r3 r4 window2 now2')
           = run R (snd (killProcess R s b now r1 r2 window now')) between
       \<and> ((\<forall>e \<in> set between. \<not> settles b e) \<longrightarrow>
            message (fst (killProcess R
              (run R (snd (killProcess R s b now r1 r2 window now')) between) b
              now2 r3 r4 window2 now2')) = ''Process '' @ b @ '' was already terminated'')
       \<and> take 29 (message (fst (killProcess R
              (run R (snd (killProcess R s b now r1 r2 window now'))
                 (between @ [ResultResolved b code t])) b
              now2 r3 r4 window2 now2'))) = ''Process has already completed''
       \<and> message (fst (killProcess R
              (run R (snd (killProcess R s b now r1 r2 window now'))
                 (between @ [ResultRejected b msg t])) b
              now2 r3 r4 window2 now2')) = ''Process '' @ b @ '' has already failed''
       \<and> \<not> success (fst (killProcess R s' b' now r1 r2 window now'))
       \<and> snd (killProcess R s' b' now r1 r2 window now') = s'
       \<and> message (fst (killProcess R s' b' now r1 r2 window now')) \<noteq> []
       \<and> (status q = Terminated \<longrightarrow> message (fst (killProcess R s' b' now r1 r2 window now'))
             = ''Process '' @ b' @ '' was already terminated'')
       \<and> (status q = Failed \<longrightarrow> message (fst (killProcess R s' b' now r1 r2 window now'))
             = ''Process '' @ b' @ '' has already failed'')
       \<and> (status q = Completed \<longrightarrow> take 29 (message (fst (killProcess R s' b' now r1 r2 window now')))
             = ''Process has already completed'')"
proof -
  let ?k1 = "killProcess R s b now r1 r2 window now'"
  let ?s2 = "run R (snd ?k1) between"
  have g1: "success (fst ?k1)" using assms(1,2) by (rule kill_running_success)
  obtain m where m: "snd ?k1 = markProcessTerminated (after_wait R s b window) b m now'"
    using kill_running_state [OF assms(1,2)] by blast
  have "status_of (after_wait R s b window) b \<noteq> None"
    using assms(1,3) by (rule after_wait_keeps_record)
  then have g2: "status_of (snd ?k1) b = Some Terminated"
    by (simp add: m markProcessTerminated_status)
  have keep: "\<forall>e \<in> set between. \<not> removes b e" and fresh: "\<forall>e \<in> set between. \<not> registers b e"
    using assms(4) by simp_all
  have present: "status_of ?s2 b \<noteq> None"
    using g2 keep by (intro run_keeps_record) simp_all
  have "status_of ?s2 b \<noteq> Some Running"
    using g2 fresh by (intro run_not_running) simp_all
  with present obtain p2 where p2: "processes ?s2 b = Some p2" "status p2 \<noteq> Running"
    by (auto simp: status_of_def)
  note second = kill_terminal [OF p2, of R now2 r3 r4 window2 now2']
  have g5: "(\<forall>e \<in> set between. \<not> settles b e) \<longrightarrow>
      message (fst (killProcess R ?s2 b now2 r3 r4 window2 now2'))
        = ''Process '' @ b @ '' was already terminated''"
  proof
    assume "\<forall>e \<in> set between. \<not> settles b e"
    with assms(4) have "\<forall>e \<in> set between. \<not> removes b e \<and> \<not> registers b e \<and> \<not> settles b e"
      by simp
    from run_stays_terminated [OF g2 this, of R] p2(1) have "status p2 = Terminated"
      by (simp add: status_of_def)
    then show "message (fst (killProcess R ?s2 b now2 r3 r4 window2 now2'))
        = ''Process '' @ b @ '' was already terminated''" by (rule second(3))
  qed
  have "status_of (run R (snd ?k1) (between @ [ResultResolved b code t])) b = Some Completed"
    using present by (simp add: run_snoc markProcessCompleted_status)
  then obtain pc where pc: "processes (run R (snd ?k1) (between @ [ResultResolved b code t])) b = Some pc"
      "status pc = Completed"
    by (auto simp: status_of_Some)
  then have "status pc \<noteq> Running" by simp
  from kill_terminal(5) [OF pc(1) this pc(2), of R now2 r3 r4 window2 now2']
  have g6: "take 29 (message (fst (killProcess R
              (run R (snd ?k1) (between @ [ResultResolved b code t])) b
              now2 r3 r4 window2 now2'))) = ''Process has already completed''" .
  have "status_of (run R (snd ?k1) (between @ [ResultRejected b msg t])) b = Some Failed"
    using present by (simp add: run_snoc markProcessFailed_status)
  then obtain pf where pf: "processes (run R (snd ?k1) (between @ [ResultRejected b msg t])) b = Some pf"
      "status pf = Failed"
    by (auto simp: status_of_Some)
  then have "status pf \<noteq> Running" by simp
  from kill_terminal(4) [OF pf(1) this pf(2), of R now2 r3 r4 window2 now2']
  have g7: "message (fst (killProcess R
              (run R (snd ?k1) (between @ [ResultRejected b msg t])) b
              now2 r3 r4 window2 now2')) = ''Process '' @ b @ '' has already failed''" .
  note other = kill_terminal [OF assms(5,6), of R now r1 r2 window now']
  have g8: "message (fst (killProcess R s' b' now r1 r2 window now')) \<noteq> []"
    using assms(5,6) by (cases "status q"; simp add: killProcess_def)
  from g1 g2 second(1,2) g5 g6 g7 other g8 show ?thesis by simp
qed

theorem C7_terminate_then_again_witness:
  "processes launched ''b'' \<noteq> None
   \<and> status_of launched ''b'' = Some Running
   \<and> \<not> removes ''b'' (AddOutput ''b'' ''x'')
   \<and> \<not> removes ''b'' (GetNewOutput ''b'' None None)
   \<and> \<not> registers ''b'' (GetNewOutput ''b'' None None)
   \<and> \<not> settles ''b'' (GetNewOutput ''b'' None None)
   \<and> status_of (markProcessCompleted launched ''b'' (Some 0) 10) ''b'' = Some Completed
   \<and> success (fst (killProcess rejects_open_paren launched ''b'' 1000 0 0
         [AddOutput ''b'' ''x''] 1500))
   \<and> message (fst (killProcess rejects_open_paren
         (run rejects_open_paren
            (snd (killProcess rejects_open_paren launched ''b'' 1000 0 0 [AddOutput ''b'' ''x''] 1500))
            [GetNewOutput ''b'' None None])
         ''b'' 2000 0 0 [] 2500)) = ''Process b was already terminated''
   \<and> take 29 (message (fst (killProcess rejects_open_paren
         (run rejects_open_paren
            (snd (killProcess rejects_open_paren launched ''b'' 1000 0 0 [AddOutput ''b'' ''x''] 1500))
            ([GetNewOutput ''b'' None None] @ [ResultResolved ''b'' None 1600]))
         ''b'' 2000 0 0 [] 2500))) = ''Process has already completed''
   \<and> \<not> success (fst (killProcess rejects_open_paren
         (markProcessCompleted launched ''b'' (Some 0) 10) ''b'' 1000 0 0
         [AddOutput ''b'' ''x''] 1500))"
proof -
  let ?w = "[AddOutput ''b'' ''x'']"
  let ?bt = "[GetNewOutput ''b'' None None]"
  let ?q = "\<lparr> id_bp = ''b'', pid = Some 7, command = ''sleep 5'',
      status = Completed, exitCode = Val 0, terminationSignal = None, outputBuffer = [],
      lastReadIndex = Map.empty, startTime = 0, endTime = Some 10, handle = Some (Some 7),
      abortController = Some False, memoryUsage = None, fileDescriptors = None \<rparr>"
  have running: "status \<lparr> id_bp = ''b'', pid = Some 7, command = ''sleep 5'',
      status = Running, exitCode = Undefined, terminationSignal = None, outputBuffer = [],
      lastReadIndex = Map.empty, startTime = 0, endTime = None, handle = Some (Some 7),
      abortController = Some False, memoryUsage = None, fileDescriptors = None \<rparr> = Running"
    by simp
  have keep: "\<forall>e \<in> set ?w. \<not> removes ''b'' e" by simp
  have quiet: "\<forall>e \<in> set ?bt. \<not> removes ''b'' e \<and> \<not> registers ''b'' e" by simp
  have unsettled: "\<forall>e \<in> set ?bt. \<not> settles ''b'' e" by simp
  have q: "processes (markProcessCompleted launched ''b'' (Some 0) 10) ''b'' = Some ?q"
    by (simp add: markProcessCompleted_def launched_record)
  have qt: "status ?q \<noteq> Running" by simp
  note inst = C7_terminate_then_again [OF launched_record running keep quiet q qt,
      of rejects_open_paren 1000 0 0 1500 2000 0 0 "[]" 2500 None 1600]
  from inst have a: "success (fst (killProcess rejects_open_paren launched ''b'' 1000 0 0 ?w 1500))"
    by blast
  from inst unsettled have b: "message (fst (killProcess rejects_open_paren
         (run rejects_open_paren
            (snd (killProcess rejects_open_paren launched ''b'' 1000 0 0 ?w 1500)) ?bt)
         ''b'' 2000 0 0 [] 2500)) = ''Process '' @ ''b'' @ '' was already terminated''"
    by blast
  from inst have c: "take 29 (message (fst (killProcess rejects_open_paren
         (run rejects_open_paren
            (snd (killProcess rejects_open_paren launched ''b'' 1000 0 0 ?w 1500))
            (?bt @ [ResultResolved ''b'' None 1600]))
         ''b'' 2000 0 0 [] 2500))) = ''Process has already completed''"
    by blast
  from inst have d: "\<not> success (fst (killProcess rejects_open_paren
         (markProcessCompleted launched ''b'' (Some 0) 10) ''b'' 1000 0 0 ?w 1500))"
    by blast
  have e: "status_of launched ''b'' = Some Running"
    "status_of (markProcessCompleted launched ''b'' (Some 0) 10) ''b'' = Some Completed"
    by (simp_all add: status_of_def launched_record q)
  from a b c d e launched_record show ?thesis by simp
qed

subsection \<open>The resources that killProcess reports\<close>

lemma addOutput_untracked:
  assumes "usage_untracked s"
  shows "usage_untracked (addOutput s bashId text)"
proof (cases "processes s bashId")
  case None
  with assms show ?thesis by (simp add: addOutput_unknown)
next
  case (Some p)
  show ?thesis
    unfolding usage_untracked_def
  proof (intro allI impI)
    fix b p'
    assume h: "processes (addOutput s bashId text) b = Some p'"
    show "memoryUsage p' = None \<and> fileDescriptors p' = None"
    proof (cases "b = bashId")
      case True
      with h Some assms show ?thesis by (auto simp: addOutput_known usage_untracked_def)
    next
      case False
      with h assms show ?thesis by (simp add: addOutput_other usage_untracked_def)
    qed
  qed
qed

lemma markProcessFailed_untracked:
  assumes "usage_untracked s"
  shows "usage_untracked (markProcessFailed s b msg now)"
proof (cases "processes s b")
  case None
  with assms show ?thesis by (simp add: markProcessFailed_def)
next
  case (Some p)
  let ?s1 = "s\<lparr>processes := (processes s)(b \<mapsto> p\<lparr>status := Failed, endTime := Some now\<rparr>)\<rparr>"
  have "usage_untracked ?s1"
    using assms Some by (auto simp: usage_untracked_def)
  then have "usage_untracked (addOutput ?s1 b (''Process failed: '' @ msg))"
    by (rule addOutput_untracked)
  then show ?thesis
    using Some by (simp add: markProcessFailed_def usage_untracked_def)
qed

lemma step_untracked:
  assumes "usage_untracked s"
  shows "usage_untracked (step R s e)"
proof (cases e)
  case (AddOutput b t)
  with assms show ?thesis by (simp add: addOutput_untracked)
next
  case (ResultRejected b m n)
  with assms show ?thesis by (simp add: markProcessFailed_untracked)
next
  case (RegisterProcess b p c h a n)
  with assms show ?thesis by (auto simp: usage_untracked_def registerProcess_def)
next
  case (GetNewOutput b c f)
  with assms show ?thesis
    by (auto simp: usage_untracked_def getNewOutput_def Let_def split: option.splits if_splits)
next
  case (ResultResolved b c n)
  with assms show ?thesis
    by (auto simp: usage_untracked_def markProcessCompleted_def split: option.splits if_splits)
next
  case (AbortSent b)
  with assms show ?thesis
    by (auto simp: usage_untracked_def abortSent_def split: option.splits if_splits)
next
  case (MarkTerminated b sg n)
  with assms show ?thesis
    by (auto simp: usage_untracked_def markProcessTerminated_def split: option.splits if_splits)
next
  case (CleanupTimer b n)
  with assms show ?thesis
    by (auto simp: usage_untracked_def cleanupTimerFires_def split: option.splits if_splits)
next
  case ClearAll
  then show ?thesis by (simp add: usage_untracked_def clearAll_def)
qed

lemma run_untracked: "usage_untracked s \<Longrightarrow> usage_untracked (run R s evs)"
  unfolding run_def by (induction evs arbitrary: s) (simp_all add: step_untracked)

lemma getInstance_untracked: "usage_untracked getInstance"
  by (simp add: usage_untracked_def getInstance_def)

text \<open>
  Claim C10. \<open>killProcess\<close> is not a function of the state of the registry. For every
  running record without usage figures, two calls in the same state, at the same clock and
  with the same callbacks during the wait report different resources when the random
  generator answers differently: 10 MB and 1 descriptor when \<open>Math.random()\<close> returns 0
  (both products are 0), 60 MB and 3 descriptors when it returns one half (the products
  are 50 and two and a half; both are exact in binary floating point). In every state that
  the service reaches from its construction all records are without usage figures, so the
  reported resources are never measured.
\<close>

theorem C10_resources_from_random_draws:
  assumes "processes s b = Some p" and "status p = Running"
    and "memoryUsage p = None" and "fileDescriptors p = None"
  shows "resourcesFreed (fst (killProcess R s b now 0 0 w now')) =
           Some \<lparr> memory = 10, fileDescriptorsFreed = 1 \<rparr>
       \<and> resourcesFreed (fst (killProcess R s b now 50 (5 / 2) w now')) =
           Some \<lparr> memory = 60, fileDescriptorsFreed = 3 \<rparr>
       \<and> resourcesFreed (fst (killProcess R s b now 0 0 w now')) \<noteq>
           resourcesFreed (fst (killProcess R s b now 50 (5 / 2) w now'))
       \<and> usage_untracked (run R getInstance evs)"
proof -
  have g: "resourcesFreed (fst (killProcess R s b now x y w now')) =
           Some \<lparr> memory = \<lfloor>x\<rfloor> + 10, fileDescriptorsFreed = \<lfloor>y\<rfloor> + 1 \<rparr>" for x y
    using kill_running_resources [OF assms(1,2), of R now x y w now'] assms(3,4) by simp
  have h: "\<lfloor>(5 / 2 :: rat)\<rfloor> = 2" by (simp add: floor_eq_iff)
  have u: "usage_untracked (run R getInstance evs)"
    by (simp add: run_untracked getInstance_untracked)
  show ?thesis using u by (simp add: g h)
qed

theorem C10_resources_from_random_draws_witness:
  "processes launched ''b'' \<noteq> None
   \<and> status_of launched ''b'' = Some Running
   \<and> resourcesFreed (fst (killProcess rejects_open_paren launched ''b'' 1000 0 0 [] 1500)) =
        Some \<lparr> memory = 10, fileDescriptorsFreed = 1 \<rparr>
   \<and> resourcesFreed (fst (killProcess rejects_open_paren launched ''b'' 1000 50 (5 / 2) [] 1500)) =
        Some \<lparr> memory = 60, fileDescriptorsFreed = 3 \<rparr>"
proof -
  let ?p = "\<lparr> id_bp = ''b'', pid = Some 7, command = ''sleep 5'',
      status = Running, exitCode = Undefined, terminationSignal = None, outputBuffer = [],
      lastReadIndex = Map.empty, startTime = 0, endTime = None, handle = Some (Some 7),
      abortController = Some False, memoryUsage = None, fileDescriptors = None \<rparr>"
  have a: "status ?p = Running" and m: "memoryUsage ?p = None" and f: "fileDescriptors ?p = None"
    by simp_all
  from C10_resources_from_random_draws [OF launched_record a m f,
      of rejects_open_paren 1000 "[]" 1500 "[]"] launched_record
  show ?thesis by (simp add: status_of_def)
qed

section \<open>Properties of the shell tool\<close>

subsection \<open>Cancellation before the start\<close>

text \<open>
  Claim C8. When the caller's signal is already aborted on entry, \<open>execute\<close> returns the
  result that says the command was cancelled before it could start, it takes that return
  before the engine is called, so its effects contain no spawn, and the supervisor is
  untouched. (When the signal is not aborted on entry, the spawn is among the effects.)
\<close>

theorem C8_cancelled_before_start:
  assumes "signalAborted env"
  shows "path (execute host params env svc) = CancelledBeforeStart
       \<and> returned (execute host params env svc) =
           Inr \<lparr> llmContent = ''Command was cancelled by user before it could start.'',
                 returnDisplay = ''Command cancelled by user.'' \<rparr>
       \<and> (\<forall>c d. Spawn c d \<notin> set (effects (execute host params env svc)))
       \<and> service (execute host params env svc) = svc
       \<and> (\<not> signalAborted env' \<longrightarrow>
            Spawn (commandToExecute host params) (cwd host)
              \<in> set (effects (execute host params env' svc)))"
proof -
  have a: "path (execute host params env svc) = CancelledBeforeStart"
    using assms by (simp add: execute_def Let_def)
  have b: "returned (execute host params env svc) =
           Inr \<lparr> llmContent = ''Command was cancelled by user before it could start.'',
                 returnDisplay = ''Command cancelled by user.'' \<rparr>"
    using assms by (simp add: execute_def Let_def)
  have c: "\<forall>c d. Spawn c d \<notin> set (effects (execute host params env svc))"
    using assms by (simp add: execute_def Let_def)
  have d: "service (execute host params env svc) = svc"
    using assms by (simp add: execute_def Let_def)
  have e: "\<not> signalAborted env' \<longrightarrow>
            Spawn (commandToExecute host params) (cwd host)
              \<in> set (effects (execute host params env' svc))"
    by (simp add: execute_def Let_def split: settled.splits)
  from a b c d e show ?thesis by blast
qed

theorem C8_cancelled_before_start_witness:
  "signalAborted (quiet_run\<lparr>signalAborted := True\<rparr>)
   \<and> path (execute example_host sleep_params (quiet_run\<lparr>signalAborted := True\<rparr>) getInstance)
       = CancelledBeforeStart
   \<and> effects (execute example_host sleep_params (quiet_run\<lparr>signalAborted := True\<rparr>) getInstance)
       = [SetTimeout 10]"
proof -
  have a: "signalAborted (quiet_run\<lparr>signalAborted := True\<rparr>)" by simp
  have "effects (execute example_host sleep_params (quiet_run\<lparr>signalAborted := True\<rparr>) getInstance)
       = [SetTimeout 10]"
    by (simp add: execute_def Let_def sleep_params_def example_host_def effectiveTimeout_def)
  with C8_cancelled_before_start [OF a, of example_host sleep_params getInstance quiet_run] a
  show ?thesis by simp
qed

subsection \<open>Timeout against cancellation by the caller\<close>

text \<open>
  Claim C9. In a foreground run whose engine result arrives, the method decides between
  the two narratives after the fact, from the two signals. If the timeout fired and the
  caller's signal was not aborted, it returns the timeout result (with the effective timeout
  and the partial output) and does not reach the report. If the caller's signal was aborted,
  it never returns the timeout result: it reaches the report, which for an aborted result
  starts with the sentence that the command was cancelled by the user. If neither fired it
  reaches the report as well.
\<close>

theorem C9_timeout_narrative:
  assumes "\<not> signalAborted env" and "param_run_in_background params \<noteq> Some True"
    and "engineStart env = Resolved pid'" and "engineResult env = Resolved result"
  shows "(timerFired env \<and> \<not> callerAborted env \<longrightarrow>
            path (execute host params env svc) = TimedOut
          \<and> returned (execute host params env svc) =
              Inr \<lparr> llmContent =
                      ''Command exceeded timeout of '' @ string_of_int (effectiveTimeout params) @
                      ''ms and was terminated.'' @ newline @ ''Partial output:'' @ newline @
                      (if res_output result = [] then ''(no output before timeout)''
                       else res_output result),
                    returnDisplay =
                      ''Command timed out after '' @ string_of_int (effectiveTimeout params) @
                      ''ms'' \<rparr>)
       \<and> (callerAborted env \<longrightarrow>
            path (execute host params env svc) = Reported
          \<and> (res_aborted result \<and> summarize host = None \<longrightarrow>
               (\<exists>rest shown. returned (execute host params env svc) =
                  Inr \<lparr> llmContent =
                          ''Command was cancelled by user before it could complete.'' @ rest,
                        returnDisplay = shown \<rparr>)))
       \<and> (\<not> timerFired env \<and> \<not> callerAborted env \<longrightarrow>
            path (execute host params env svc) = Reported)"
  using assms by (simp add: execute_def Let_def)

theorem C9_timeout_narrative_witness:
  "\<not> signalAborted (quiet_run\<lparr>timerFired := True\<rparr>)
   \<and> param_run_in_background sleep_params \<noteq> Some True
   \<and> timerFired (quiet_run\<lparr>timerFired := True\<rparr>)
   \<and> \<not> callerAborted (quiet_run\<lparr>timerFired := True\<rparr>)
   \<and> path (execute example_host sleep_params (quiet_run\<lparr>timerFired := True\<rparr>) getInstance)
       = TimedOut
   \<and> returned (execute example_host sleep_params (quiet_run\<lparr>timerFired := True\<rparr>) getInstance)
       = Inr \<lparr> llmContent =
                 ''Command exceeded timeout of 10ms and was terminated.'' @ newline @
                 ''Partial output:'' @ newline @ ''(no output before timeout)'',
               returnDisplay = ''Command timed out after 10ms'' \<rparr>"
proof -
  let ?env = "quiet_run\<lparr>timerFired := True\<rparr>"
  have a: "\<not> signalAborted ?env" by (simp add: quiet_run_def)
  have b: "param_run_in_background sleep_params \<noteq> Some True" by (simp add: sleep_params_def)
  have c: "engineStart ?env = Resolved (Some 7)" by (simp add: quiet_run_def)
  have d: "engineResult ?env = Resolved killed_result" by (simp add: quiet_run_def)
  have e: "timerFired ?env" "\<not> callerAborted ?env" by (simp_all add: quiet_run_def)
  have t: "string_of_int (effectiveTimeout sleep_params) = ''10''"
    by (simp add: effectiveTimeout_def sleep_params_def string_of_int_def
          string_of_nat.simps digit_char_def)
  have o: "res_output killed_result = []" by (simp add: killed_result_def)
  from C9_timeout_narrative [OF a b c d, of example_host getInstance] a b e t o
  show ?thesis by simp
qed

subsection \<open>Registration and the output of a background launch\<close>




lemma backgroundOutput_addOutput:
  "backgroundOutput host b svc ev = addOutput svc b (event_text host ev)"
  by (cases ev) (simp_all add: backgroundOutput_def event_text_def)


lemma scheduleCleanup_buffer [simp]: "buffer_of (scheduleCleanup s b now) b' = buffer_of s b'"
  by (simp add: buffer_of_def)

lemma getNewOutput_buffer [simp]:
  "buffer_of (snd (getNewOutput R s b c f)) b' = buffer_of s b'"
  by (auto simp: buffer_of_def getNewOutput_def Let_def split: option.splits)

lemma markProcessCompleted_buffer [simp]:
  "buffer_of (markProcessCompleted s b code now) b' = buffer_of s b'"
  by (auto simp: buffer_of_def markProcessCompleted_def split: option.splits)

lemma markProcessTerminated_buffer [simp]:
  "buffer_of (markProcessTerminated s b sg now) b' = buffer_of s b'"
  by (auto simp: buffer_of_def markProcessTerminated_def split: option.splits)

lemma abortSent_buffer [simp]: "buffer_of (abortSent s b) b' = buffer_of s b'"
  by (auto simp: buffer_of_def abortSent_def split: option.splits)




lemma callback_step_MAX [simp]:
  "MAX_BUFFER_LINES (callback_step host R b s x) = MAX_BUFFER_LINES s"
  by (cases x) (simp_all add: backgroundOutput_addOutput)




lemma trace_MAX [simp]:
  "MAX_BUFFER_LINES (foldl (callback_step host R b) s trace) = MAX_BUFFER_LINES s"
  by (induction trace arbitrary: s) simp_all



end
